theory Spec2Isabelle
  imports Main "HOL-Library.AList" "HOL-Library.Char_ord" "HOL-Library.List_Lexorder"
begin

section \<open>The step pipeline of docker-qgis/process\_projectfile.py\<close>

text \<open>
  The embedding follows \<^verbatim>\<open>process_projectfile\<close> (lines 208-284): the loop over the steps
  (lines 247-263), the handler for the domain errors (lines 265-268) and the finalizer that
  assembles and emits the feedback (lines 269-284). The four step callables talk to the file
  system, to Qt and to QGIS; they are opaque here: a callable takes the positional arguments
  and the state of the outside world, and either returns a value or raises.
\<close>

subsection \<open>Values and exceptions\<close>

text \<open>
  Python values as far as the executor looks at them. \<open>PObj\<close> is an object the executor
  only passes on (a \<^verbatim>\<open>Path\<close>, a \<^verbatim>\<open>QgsProject\<close>); it is neither iterable nor
  serialisable.
\<close>

datatype pyval =
    PNone
  | PBool bool
  | PInt int
  | PStr string
  | PTuple "pyval list"
  | PList "pyval list"
  | PDict "(string \<times> pyval) list"
  | PObj nat

type_synonym pydict = "(string \<times> pyval) list"

text \<open>
  The exception classes of lines 30-55, each with the named fields of its message template,
  already converted by \<^verbatim>\<open>%s\<close>.
\<close>

datatype domain_error =
    ProjectFileNotFoundException string
  | InvalidFileExtensionException string string
  | InvalidXmlFileException string string
  | InvalidQgisFileException string string
  | InvalidLayersException string
  | FailedThumbnailGenerationException string

text \<open>
  Modelled from the spec: the base class \<^verbatim>\<open>BaseException\<close> of
  \<^verbatim>\<open>qfieldcloud.qgis.utils\<close> is not among the sources. Section 7 of the specification gives
  its shape: a message template plus named substitution fields supplied at the raise site;
  \<^verbatim>\<open>str(err)\<close> is the template of the class (lines 31-55) with the fields filled in.
\<close>

fun str_of_error :: "domain_error \<Rightarrow> string" where
  \<open>str_of_error (ProjectFileNotFoundException project_filename) =
     ''Project file "'' @ project_filename @ ''" does not exist''\<close>
| \<open>str_of_error (InvalidFileExtensionException project_filename extension) =
     ''Project file "'' @ project_filename @ ''" has unknown file extension "'' @ extension @ ''"''\<close>
| \<open>str_of_error (InvalidXmlFileException project_filename xml_error) =
     ''Project file "'' @ project_filename @ ''" is an invalid XML document:'' @ [CHR 0x0A] @ xml_error\<close>
| \<open>str_of_error (InvalidQgisFileException project_filename error) =
     ''Project file "'' @ project_filename @ ''" is invalid QGIS file:'' @ [CHR 0x0A] @ error\<close>
| \<open>str_of_error (InvalidLayersException project_filename) =
     ''Project file "'' @ project_filename @ ''" contains invalid layers''\<close>
| \<open>str_of_error (FailedThumbnailGenerationException reason) =
     ''Failed to generate project thumbnail:'' @ [CHR 0x0A] @ reason\<close>

text \<open>
  What can be raised inside the \<^verbatim>\<open>try\<close> block: a member of the domain family, the
  \<^verbatim>\<open>KeyError\<close> of a dictionary lookup, the \<^verbatim>\<open>TypeError\<close> of iterating a value that is not
  iterable, or any other exception of a callable. The finalizer adds the \<^verbatim>\<open>TypeError\<close> of the
  JSON writer and the \<^verbatim>\<open>OSError\<close> of \<^verbatim>\<open>open\<close>.
\<close>

datatype exn =
    DomainError domain_error
  | KeyError string
  | TypeError string
  | OSError string
  | OtherError string

text \<open>
  Line 265, \<^verbatim>\<open>except BaseException\<close>: the name is the class imported at line 12, so the
  handler matches the domain family and nothing else.
\<close>

fun is_BaseException :: "exn \<Rightarrow> bool" where
  "is_BaseException (DomainError _) = True"
| "is_BaseException _ = False"

text \<open>
  A raised exception together with the formatted frames of its traceback below the frame
  of the executor (what \<^verbatim>\<open>traceback.format_tb\<close> prints for the callee's frames).
\<close>

datatype outcome = Returns pyval | Raises exn "string list"

type_synonym failure = "exn \<times> string list"

subsection \<open>Steps\<close>

text \<open>
  Modelled from the spec: the class \<^verbatim>\<open>Step\<close> and the context manager
  \<^verbatim>\<open>logger_context\<close> of \<^verbatim>\<open>qfieldcloud.qgis.utils\<close> are not among the sources. The stage is
  the lifecycle marker of the glossary: not started, started, succeeded.
\<close>

datatype stage = NOT_STARTED | STARTED | SUCCEEDED

fun stage_rank :: "stage \<Rightarrow> nat" where
  "stage_rank NOT_STARTED = 0"
| "stage_rank STARTED = 1"
| "stage_rank SUCCEEDED = 2"

text \<open>
  Modelled from the spec: the value that stands for a stage in the feedback. The sources do
  not show what \<^verbatim>\<open>step.stage\<close> holds; the document shows the stage by the name the
  specification gives it (section 4.3).
\<close>

fun stage_name :: "stage \<Rightarrow> string" where
  "stage_name NOT_STARTED = ''NOT_STARTED''"
| "stage_name STARTED = ''STARTED''"
| "stage_name SUCCEEDED = ''SUCCEEDED''"

text \<open>
  The attributes of a step that \<^verbatim>\<open>process_projectfile\<close> reads and writes (lines 249-263 and
  272-274). The attribute that holds the callable is \<open>method_call\<close> here; the callable
  takes the arguments and the outside world \<open>'w\<close>.
\<close>

record 'w Step =
  name :: string
  arg_names :: "string list"
  method_call :: "pyval list \<Rightarrow> 'w \<Rightarrow> outcome \<times> 'w"
  return_names :: "string list"
  output_names :: "string list"
  public_returns :: "string list"
  stage :: stage
  outputs :: pydict

datatype contract_violation =
    OutputNamesNotReturned string "string list"
  | PublicReturnsNotReturned string "string list"

text \<open>
  Modelled from the spec: the constructor of \<^verbatim>\<open>Step\<close> (section 4.1). It takes the name, the
  input names, the callable, the return names, the output names and the public returns;
  output names and public returns that are not among the return names are rejected; the record
  of a step starts with the stage \<open>NOT_STARTED\<close> and no outputs (section 3). The constructor
  cannot see the results of the callable, so it has nothing to compare the number of return
  names with.
\<close>

definition Step_init ::
  "string \<Rightarrow> string list \<Rightarrow> (pyval list \<Rightarrow> 'w \<Rightarrow> outcome \<times> 'w) \<Rightarrow> string list \<Rightarrow> string list \<Rightarrow> string list
     \<Rightarrow> contract_violation + 'w Step" where
  "Step_init nm args m rets outs pubs =
     (if \<not> set outs \<subseteq> set rets then Inl (OutputNamesNotReturned nm outs)
      else if \<not> set pubs \<subseteq> set rets then Inl (PublicReturnsNotReturned nm pubs)
      else Inr \<lparr>name = nm, arg_names = args, method_call = m, return_names = rets,
                output_names = outs, public_returns = pubs, stage = NOT_STARTED, outputs = []\<rparr>)"

text \<open>
  A list display of constructor calls (lines 219-244) evaluates them in order; the first one
  that raises ends the evaluation.
\<close>

fun construct_all :: "(contract_violation + 'w Step) list \<Rightarrow> contract_violation + 'w Step list" where
  "construct_all [] = Inr []"
| "construct_all (Inl v # cs) = Inl v"
| "construct_all (Inr s # cs) =
     (case construct_all cs of Inl v \<Rightarrow> Inl v | Inr ss \<Rightarrow> Inr (s # ss))"

subsection \<open>The body of the loop\<close>

text \<open>
  The frame of the executor in a traceback, by the line that raised. The formatted frame of
  Python also has the directory of the file and the text of the line; they are left out.
\<close>

definition frame_args :: string where
  \<open>frame_args = ''  File "process_projectfile.py", line 249, in process_projectfile''\<close>

definition frame_call :: string where
  \<open>frame_call = ''  File "process_projectfile.py", line 250, in process_projectfile''\<close>

definition frame_zip :: string where
  \<open>frame_zip = ''  File "process_projectfile.py", line 256, in process_projectfile''\<close>

definition frame_outputs :: string where
  \<open>frame_outputs = ''  File "process_projectfile.py", line 260, in process_projectfile''\<close>

definition frame_public :: string where
  \<open>frame_public = ''  File "process_projectfile.py", line 263, in process_projectfile''\<close>

text \<open>Subscription of a dictionary: \<^verbatim>\<open>d[k]\<close> raises \<^verbatim>\<open>KeyError\<close> on a missing key.\<close>

definition getitem :: "pydict \<Rightarrow> string \<Rightarrow> exn + pyval" where
  "getitem d k = (case map_of d k of None \<Rightarrow> Inl (KeyError k) | Some v \<Rightarrow> Inr v)"

text \<open>Line 249: the list comprehension stops at the first missing name.\<close>

fun resolve_args :: "pydict \<Rightarrow> string list \<Rightarrow> exn + pyval list" where
  "resolve_args arg_values [] = Inr []"
| "resolve_args arg_values (arg_name # rest) =
     (case getitem arg_values arg_name of
        Inl e \<Rightarrow> Inl e
      | Inr v \<Rightarrow> (case resolve_args arg_values rest of
                   Inl e \<Rightarrow> Inl e
                 | Inr vs \<Rightarrow> Inr (v # vs)))"

text \<open>Lines 251-253: a result is kept as it is for more than one return name, and wrapped
  in a tuple of length one otherwise.\<close>

definition wrap_return_values :: "string list \<Rightarrow> pyval \<Rightarrow> pyval" where
  "wrap_return_values rets return_values =
     (if length rets > 1 then return_values else PTuple [return_values])"

text \<open>What \<^verbatim>\<open>zip\<close> iterates over: the items of a tuple or a list, the characters of a string,
  the keys of a dictionary; anything else is not iterable.\<close>

fun py_iter :: "pyval \<Rightarrow> exn + pyval list" where
  "py_iter (PTuple vs) = Inr vs"
| "py_iter (PList vs) = Inr vs"
| "py_iter (PStr s) = Inr (map (\<lambda>c. PStr [c]) s)"
| "py_iter (PDict kvs) = Inr (map (\<lambda>k. PStr k) (remdups (map fst kvs)))"
| "py_iter PNone = Inl (TypeError ''NoneType'')"
| "py_iter (PBool b) = Inl (TypeError ''bool'')"
| "py_iter (PInt i) = Inl (TypeError ''int'')"
| "py_iter (PObj n) = Inl (TypeError ''object'')"

text \<open>Lines 255-257: the pairs of \<^verbatim>\<open>zip\<close>, which stops at the shorter of the two, are
  stored one after the other into an empty dictionary.\<close>

fun store_all :: "(string \<times> pyval) list \<Rightarrow> pydict \<Rightarrow> pydict" where
  "store_all [] d = d"
| "store_all ((k, v) # kvs) d = store_all kvs (AList.update k v d)"

definition make_return_map :: "string list \<Rightarrow> pyval \<Rightarrow> exn + pydict" where
  "make_return_map rets return_values =
     (case py_iter return_values of
        Inl e \<Rightarrow> Inl e
      | Inr vs \<Rightarrow> Inr (store_all (zip rets vs) []))"

text \<open>Lines 259-260 and 262-263: each loop writes name after name into its dictionary; a
  name missing from the return map raises after the earlier writes were made.\<close>

fun copy_items :: "pydict \<Rightarrow> string list \<Rightarrow> pydict \<Rightarrow> pydict \<times> exn option" where
  "copy_items return_map [] target = (target, None)"
| "copy_items return_map (n # ns) target =
     (case getitem return_map n of
        Inl e \<Rightarrow> (target, Some e)
      | Inr v \<Rightarrow> copy_items return_map ns (AList.update n v target))"

text \<open>
  Lines 249-263, the body of the \<^verbatim>\<open>with\<close> block, on the world, the dictionary
  \<^verbatim>\<open>arg_values\<close> and the step: the new world, the new \<^verbatim>\<open>arg_values\<close>, the step with its new
  outputs, and the exception that ended the body, if one did.
\<close>

definition step_body :: "'w \<Rightarrow> pydict \<Rightarrow> 'w Step \<Rightarrow> ('w \<times> pydict) \<times> 'w Step \<times> failure option" where
  "step_body w arg_values step =
     (case resolve_args arg_values (arg_names step) of
        Inl e \<Rightarrow> ((w, arg_values), step, Some (e, [frame_args]))
      | Inr args \<Rightarrow>
         (case method_call step args w of
            (Raises e tb, w') \<Rightarrow> ((w', arg_values), step, Some (e, frame_call # tb))
          | (Returns return_values, w') \<Rightarrow>
             (case make_return_map (return_names step)
                     (wrap_return_values (return_names step) return_values) of
                Inl e \<Rightarrow> ((w', arg_values), step, Some (e, [frame_zip]))
              | Inr return_map \<Rightarrow>
                 (case copy_items return_map (output_names step) (outputs step) of
                    (outs, Some e) \<Rightarrow>
                      ((w', arg_values), step\<lparr>outputs := outs\<rparr>, Some (e, [frame_outputs]))
                  | (outs, None) \<Rightarrow>
                     (case copy_items return_map (public_returns step) arg_values of
                        (arg_values', Some e) \<Rightarrow>
                          ((w', arg_values'), step\<lparr>outputs := outs\<rparr>, Some (e, [frame_public]))
                      | (arg_values', None) \<Rightarrow>
                          ((w', arg_values'), step\<lparr>outputs := outs\<rparr>, None))))))"

text \<open>
  Modelled from the spec: \<^verbatim>\<open>logger_context\<close> (section 6, the scoped step-tracking
  collaborator): entering sets \<open>STARTED\<close>, a normal exit sets \<open>SUCCEEDED\<close>, an exceptional exit
  leaves the stage where it is and lets the exception pass.
\<close>

definition logger_context ::
  "'w Step \<Rightarrow> ('w Step \<Rightarrow> 'st \<times> 'w Step \<times> failure option) \<Rightarrow> 'st \<times> 'w Step \<times> failure option" where
  "logger_context step body =
     (case body (step\<lparr>stage := STARTED\<rparr>) of
        (st, step', Some f) \<Rightarrow> (st, step', Some f)
      | (st, step', None) \<Rightarrow> (st, step'\<lparr>stage := SUCCEEDED\<rparr>, None))"

text \<open>Lines 247-263: the loop; an exception leaves it, and the later steps are not touched.\<close>

fun run_steps :: "'w \<Rightarrow> pydict \<Rightarrow> 'w Step list \<Rightarrow> ('w \<times> pydict) \<times> 'w Step list \<times> failure option" where
  "run_steps w arg_values [] = ((w, arg_values), [], None)"
| "run_steps w arg_values (step # rest) =
     (case logger_context step (step_body w arg_values) of
        (st, step', Some f) \<Rightarrow> (st, step' # rest, Some f)
      | ((w', arg_values'), step', None) \<Rightarrow>
         (case run_steps w' arg_values' rest of
            (st, rest', r) \<Rightarrow> (st, step' # rest', r)))"

subsection \<open>The JSON writer\<close>

text \<open>
  \<^verbatim>\<open>json.dumps(feedback, indent=2, sort_keys=True)\<close> of the standard library, for the values
  above: items on lines of their own, two spaces for each level, the keys of a dictionary in
  sorted order, every character outside the printable ASCII range escaped. A character
  stands for the code point of its number.
\<close>

definition digit_char :: "nat \<Rightarrow> char" where
  "digit_char n = char_of (48 + n)"

fun decimal :: "nat \<Rightarrow> string" where
  "decimal n = (if n < 10 then [digit_char n] else decimal (n div 10) @ [digit_char (n mod 10)])"

declare decimal.simps [simp del]

definition int_repr :: "int \<Rightarrow> string" where
  "int_repr i = (if i < 0 then ''-'' @ decimal (nat (- i)) else decimal (nat i))"

definition hex_digit :: "nat \<Rightarrow> char" where
  "hex_digit n = (if n < 10 then char_of (48 + n) else char_of (87 + n))"

definition escape_char :: "char \<Rightarrow> string" where
  \<open>escape_char c =
     (if c = CHR 0x22 then [CHR 0x5C, CHR 0x22]
      else if c = CHR 0x5C then [CHR 0x5C, CHR 0x5C]
      else if c = CHR 0x0A then [CHR 0x5C, CHR ''n'']
      else if c = CHR 0x0D then [CHR 0x5C, CHR ''r'']
      else if c = CHR 0x09 then [CHR 0x5C, CHR ''t'']
      else if c = CHR 0x08 then [CHR 0x5C, CHR ''b'']
      else if c = CHR 0x0C then [CHR 0x5C, CHR ''f'']
      else if (of_char c :: nat) < 32 \<or> 126 < (of_char c :: nat)
        then [CHR 0x5C, CHR ''u'', CHR ''0'', CHR ''0'',
              hex_digit (of_char c div 16), hex_digit (of_char c mod 16)]
      else [c])\<close>

definition encode_str :: "string \<Rightarrow> string" where
  "encode_str s = [CHR 0x22] @ concat (map escape_char s) @ [CHR 0x22]"

definition newline_indent :: "nat \<Rightarrow> string" where
  "newline_indent level = CHR 0x0A # replicate (2 * level) CHR '' ''"

fun join :: "string \<Rightarrow> string list \<Rightarrow> string" where
  "join sep [] = []"
| "join sep [x] = x"
| "join sep (x # y # ys) = x @ sep @ join sep (y # ys)"

function (sequential) encode :: "nat \<Rightarrow> pyval \<Rightarrow> string" where
  "encode level PNone = ''null''"
| "encode level (PBool b) = (if b then ''true'' else ''false'')"
| "encode level (PInt i) = int_repr i"
| "encode level (PStr s) = encode_str s"
| "encode level (PTuple vs) =
     (if vs = [] then ''[]''
      else ''['' @ newline_indent (Suc level)
           @ join ('','' @ newline_indent (Suc level)) (map (encode (Suc level)) vs)
           @ newline_indent level @ '']'')"
| "encode level (PList vs) =
     (if vs = [] then ''[]''
      else ''['' @ newline_indent (Suc level)
           @ join ('','' @ newline_indent (Suc level)) (map (encode (Suc level)) vs)
           @ newline_indent level @ '']'')"
| "encode level (PDict kvs) =
     (if kvs = [] then ''{}''
      else ''{'' @ newline_indent (Suc level)
           @ join ('','' @ newline_indent (Suc level))
               (map (\<lambda>(k, v). encode_str k @ '': '' @ encode (Suc level) v) (sort_key fst kvs))
           @ newline_indent level @ ''}'')"
| "encode level (PObj n) = []"
  by pat_completeness auto
termination
  by (relation "measure (\<lambda>(l, v). size v)")
     (auto simp: less_Suc_eq_le size_list_estimation')

text \<open>The writer raises \<^verbatim>\<open>TypeError\<close> on an object it has no encoding for. The message of
  Python also names the type of the object; that is left out.\<close>

fun json_serialisable :: "pyval \<Rightarrow> bool" where
  "json_serialisable (PObj n) = False"
| "json_serialisable (PTuple vs) = list_all json_serialisable vs"
| "json_serialisable (PList vs) = list_all json_serialisable vs"
| "json_serialisable (PDict kvs) = list_all json_serialisable (map snd kvs)"
| "json_serialisable _ = True"

definition json_dumps :: "pyval \<Rightarrow> exn + string" where
  "json_dumps v =
     (if json_serialisable v then Inr (encode 0 v)
      else Inl (TypeError ''Object is not JSON serializable''))"

subsection \<open>The handler and the finalizer\<close>

text \<open>
  Lines 265-268. The class named at line 265 is the one imported at line 12, so the handler
  takes the members of the domain family: it stores \<^verbatim>\<open>str(err)\<close> and the formatted
  traceback. Any other exception stays in flight. Without an exception the feedback is the
  empty dictionary of line 213.
\<close>

fun except_BaseException :: "failure option \<Rightarrow> pydict \<times> failure option" where
  "except_BaseException None = ([], None)"
| "except_BaseException (Some (DomainError err, tb)) =
     (AList.update ''error_stack'' (PList (map PStr tb))
        (AList.update ''error'' (PStr (str_of_error err)) []), None)"
| "except_BaseException (Some (e, tb)) = ([], Some (e, tb))"

text \<open>Lines 271-275: the entry of one step in the feedback.\<close>

definition step_entry :: "'w Step \<Rightarrow> pyval" where
  "step_entry step =
     PDict [(''name'', PStr (name step)),
            (''stage'', PStr (stage_name (stage step))),
            (''outputs'', PDict (outputs step))]"

text \<open>
  Lines 279-284: the feedback goes to the file of the given name, or to the standard output
  after the line \<^verbatim>\<open>Feedback:\<close>. What the finalizer leaves in its sink is a document, or the
  remains of a writer that raised: \<^verbatim>\<open>json.dump\<close> writes the text piece by piece into the
  open file, so the file keeps an incomplete text; \<^verbatim>\<open>json.dumps\<close> raises before the second
  \<^verbatim>\<open>print\<close>, so only the line \<^verbatim>\<open>Feedback:\<close> was printed.
\<close>

datatype emission =
    DocumentInFile string string
  | DocumentPrinted string
  | FileLeftTruncated string
  | HeaderPrinted

fun is_document :: "emission \<Rightarrow> bool" where
  "is_document (DocumentInFile f text) = True"
| "is_document (DocumentPrinted text) = True"
| "is_document (FileLeftTruncated f) = False"
| "is_document HeaderPrinted = False"

text \<open>What the standard output shows of an emission.\<close>

fun printed :: "emission \<Rightarrow> string" where
  "printed (DocumentPrinted text) = ''Feedback:'' @ [CHR 0x0A] @ text @ [CHR 0x0A]"
| "printed HeaderPrinted = ''Feedback:'' @ [CHR 0x0A]"
| "printed (DocumentInFile f text) = []"
| "printed (FileLeftTruncated f) = []"

definition frame_open :: string where
  \<open>frame_open = ''  File "process_projectfile.py", line 280, in process_projectfile''\<close>

definition frame_dump :: string where
  \<open>frame_dump = ''  File "process_projectfile.py", line 281, in process_projectfile''\<close>

definition frame_dumps :: string where
  \<open>frame_dumps = ''  File "process_projectfile.py", line 284, in process_projectfile''\<close>

text \<open>
  Lines 270-284, the \<^verbatim>\<open>finally\<close> block: the steps are stored into the feedback, and the
  feedback is written. \<open>openable f\<close> says whether \<^verbatim>\<open>open\<close> succeeds on the file \<open>f\<close>.
  The result is the feedback, what the sink got, and the exception of \<^verbatim>\<open>open\<close> or of the
  writer, if one was raised.
\<close>

definition finalizer ::
  "(string \<Rightarrow> bool) \<Rightarrow> 'w Step list \<Rightarrow> string option \<Rightarrow> pydict
     \<Rightarrow> pydict \<times> emission list \<times> failure option" where
  "finalizer openable steps feedback_filename feedback =
     (let feedback' = AList.update ''steps'' (PList (map step_entry steps)) feedback
      in case feedback_filename of
           Some f \<Rightarrow>
             (if openable f
              then (case json_dumps (PDict feedback') of
                      Inr text \<Rightarrow> (feedback', [DocumentInFile f text], None)
                    | Inl e \<Rightarrow> (feedback', [FileLeftTruncated f], Some (e, [frame_dump])))
              else (feedback', [], Some (OSError f, [frame_open])))
         | None \<Rightarrow>
             (case json_dumps (PDict feedback') of
                Inr text \<Rightarrow> (feedback', [DocumentPrinted text], None)
              | Inl e \<Rightarrow> (feedback', [HeaderPrinted], Some (e, [frame_dumps]))))"

text \<open>
  What a run leaves behind: the feedback and the emissions, the exception that leaves
  \<^verbatim>\<open>process_projectfile\<close> (if any), and the final world, \<^verbatim>\<open>arg_values\<close> and steps.
\<close>

record 'w run_result =
  feedback :: pydict
  emitted :: "emission list"
  propagated :: "failure option"
  final_world :: 'w
  final_arg_values :: pydict
  final_steps :: "'w Step list"

text \<open>
  Lines 246-284: \<^verbatim>\<open>try\<close>, \<^verbatim>\<open>except\<close>, \<^verbatim>\<open>finally\<close> over a list of steps. \<open>can_open w f\<close>
  says whether the file \<open>f\<close> can be opened for writing in the world \<open>w\<close>. An exception raised
  in the \<^verbatim>\<open>finally\<close> block takes the place of the one in flight.
\<close>

definition execute ::
  "('w \<Rightarrow> string \<Rightarrow> bool) \<Rightarrow> 'w Step list \<Rightarrow> pydict \<Rightarrow> string option \<Rightarrow> 'w \<Rightarrow> 'w run_result" where
  "execute can_open steps arg_values feedback_filename w =
     (case run_steps w arg_values steps of
        ((w', arg_values'), steps', r) \<Rightarrow>
          (case except_BaseException r of
             (feedback0, in_flight) \<Rightarrow>
               (case finalizer (can_open w') steps' feedback_filename feedback0 of
                  (feedback1, out, raised) \<Rightarrow>
                    \<lparr>feedback = feedback1, emitted = out,
                     propagated = (case raised of Some f \<Rightarrow> Some f | None \<Rightarrow> in_flight),
                     final_world = w', final_arg_values = arg_values',
                     final_steps = steps'\<rparr>)))"

text \<open>
  Lines 208-244: the four steps of \<^verbatim>\<open>process_projectfile\<close>. The callables are parameters:
  they are the functions of lines 58-205, which work on the file system and on QGIS.
\<close>

record 'w collaborators =
  check_valid_project_file :: "pyval list \<Rightarrow> 'w \<Rightarrow> outcome \<times> 'w"
  load_project_file :: "pyval list \<Rightarrow> 'w \<Rightarrow> outcome \<times> 'w"
  check_layer_validity :: "pyval list \<Rightarrow> 'w \<Rightarrow> outcome \<times> 'w"
  generate_thumbnail :: "pyval list \<Rightarrow> 'w \<Rightarrow> outcome \<times> 'w"

definition declared_steps :: "'w collaborators \<Rightarrow> (contract_violation + 'w Step) list" where
  "declared_steps c =
     [Step_init ''Project Validity Check'' [''project_filename'']
        (check_valid_project_file c) [] [] [],
      Step_init ''Opening Check'' [''project_filename'']
        (load_project_file c) [''project''] [] [''project''],
      Step_init ''Layer Validity Check'' [''project'']
        (check_layer_validity c) [''layers_summary''] [''layers_summary''] [],
      Step_init ''Generate Thumbnail Image'' [''project'', ''thumbnail_filename'']
        (generate_thumbnail c) [] [] []]"

text \<open>
  The steps are constructed before the \<^verbatim>\<open>try\<close> block is entered (lines 219-244 against
  line 246): a constructor that raises ends the call with nothing executed and nothing emitted.
\<close>

definition run_pipeline ::
  "('w \<Rightarrow> string \<Rightarrow> bool) \<Rightarrow> (contract_violation + 'w Step) list \<Rightarrow> pydict \<Rightarrow> string option \<Rightarrow> 'w
     \<Rightarrow> contract_violation + 'w run_result" where
  "run_pipeline can_open constructed arg_values feedback_filename w =
     (case construct_all constructed of
        Inl v \<Rightarrow> Inl v
      | Inr steps \<Rightarrow> Inr (execute can_open steps arg_values feedback_filename w))"

definition process_projectfile ::
  "('w \<Rightarrow> string \<Rightarrow> bool) \<Rightarrow> 'w collaborators \<Rightarrow> pyval \<Rightarrow> pyval \<Rightarrow> string option \<Rightarrow> 'w
     \<Rightarrow> contract_violation + 'w run_result" where
  "process_projectfile can_open c project_filename thumbnail_filename feedback_filename w =
     run_pipeline can_open (declared_steps c)
       [(''project_filename'', project_filename), (''thumbnail_filename'', thumbnail_filename)]
       feedback_filename w"

subsection \<open>Reading a feedback document\<close>

definition listed_steps :: "pydict \<Rightarrow> pyval list" where
  "listed_steps fb = (case map_of fb ''steps'' of Some (PList es) \<Rightarrow> es | _ \<Rightarrow> [])"

definition entry_field :: "string \<Rightarrow> pyval \<Rightarrow> pyval option" where
  "entry_field k e = (case e of PDict d \<Rightarrow> map_of d k | _ \<Rightarrow> None)"

definition listed_names :: "pydict \<Rightarrow> pyval option list" where
  "listed_names fb = map (entry_field ''name'') (listed_steps fb)"



subsection \<open>Sample collaborators\<close>

text \<open>
  Callables for concrete runs. The world is the number of calls made so far. The first four
  return what lines 58-205 return on success; the others raise.
\<close>

definition valid_project :: "pyval list \<Rightarrow> nat \<Rightarrow> outcome \<times> nat" where
  "valid_project args w = (Returns PNone, Suc w)"

definition opened_project :: "pyval list \<Rightarrow> nat \<Rightarrow> outcome \<times> nat" where
  "opened_project args w = (Returns (PObj 1), Suc w)"

definition valid_layers :: "pyval list \<Rightarrow> nat \<Rightarrow> outcome \<times> nat" where
  "valid_layers args w =
     (Returns (PList [PDict [(''id'', PStr ''roads''), (''is_valid'', PBool True)]]), Suc w)"

definition thumbnail_made :: "pyval list \<Rightarrow> nat \<Rightarrow> outcome \<times> nat" where
  "thumbnail_made args w = (Returns PNone, Suc w)"

definition missing_project :: "pyval list \<Rightarrow> nat \<Rightarrow> outcome \<times> nat" where
  \<open>missing_project args w =
     (Raises (DomainError (ProjectFileNotFoundException ''/x.qgs''))
        [''  File "process_projectfile.py", line 62, in check_valid_project_file''], Suc w)\<close>

definition invalid_layers :: "pyval list \<Rightarrow> nat \<Rightarrow> outcome \<times> nat" where
  \<open>invalid_layers args w =
     (Raises (DomainError (InvalidLayersException ''/x.qgs''))
        [''  File "process_projectfile.py", line 151, in check_layer_validity''], Suc w)\<close>

definition crashing_load :: "pyval list \<Rightarrow> nat \<Rightarrow> outcome \<times> nat" where
  \<open>crashing_load args w =
     (Raises (OtherError ''RuntimeError'')
        [''  File "process_projectfile.py", line 81, in load_project_file''], Suc w)\<close>

definition good_run :: "nat collaborators" where
  "good_run = \<lparr>check_valid_project_file = valid_project, load_project_file = opened_project,
               check_layer_validity = valid_layers, generate_thumbnail = thumbnail_made\<rparr>"

definition not_found_run :: "nat collaborators" where
  "not_found_run = good_run\<lparr>check_valid_project_file := missing_project\<rparr>"

definition invalid_layers_run :: "nat collaborators" where
  "invalid_layers_run = good_run\<lparr>check_layer_validity := invalid_layers\<rparr>"

definition crashing_run :: "nat collaborators" where
  "crashing_run = good_run\<lparr>load_project_file := crashing_load\<rparr>"

text \<open>The steps of lines 219-244 as the constructor leaves them.\<close>

definition the_steps :: "'w collaborators \<Rightarrow> 'w Step list" where
  "the_steps c = (case construct_all (declared_steps c) of Inl v \<Rightarrow> [] | Inr steps \<Rightarrow> steps)"

definition initial_arg_values :: pydict where
  "initial_arg_values =
     [(''project_filename'', PStr ''/x.qgs''), (''thumbnail_filename'', PStr ''/tmp/thumbnail.png'')]"

text \<open>A step with two return names whose callable returns three values, and a step with
  one return name whose callable returns a tuple.\<close>

definition returns_triple :: "pyval list \<Rightarrow> nat \<Rightarrow> outcome \<times> nat" where
  "returns_triple args w = (Returns (PTuple [PInt 1, PInt 2, PInt 3]), Suc w)"

definition two_names_step :: "nat Step" where
  "two_names_step =
     \<lparr>name = ''pair'', arg_names = [], method_call = returns_triple,
      return_names = [''a'', ''b''], output_names = [''a'', ''b''], public_returns = [],
      stage = NOT_STARTED, outputs = []\<rparr>"

definition one_name_step :: "nat Step" where
  "one_name_step =
     \<lparr>name = ''whole'', arg_names = [], method_call = returns_triple,
      return_names = [''a''], output_names = [''a''], public_returns = [],
      stage = NOT_STARTED, outputs = []\<rparr>"

text \<open>
  A chain that replaces a value: the first step publishes \<^verbatim>\<open>x\<close>, the second takes it and
  publishes a new \<^verbatim>\<open>x\<close>, the third publishes nothing, the fourth takes \<^verbatim>\<open>x\<close>.
\<close>

definition writes_one :: "pyval list \<Rightarrow> nat \<Rightarrow> outcome \<times> nat" where
  "writes_one args w = (Returns (PInt 1), Suc w)"

definition writes_two :: "pyval list \<Rightarrow> nat \<Rightarrow> outcome \<times> nat" where
  "writes_two args w = (Returns (PInt 2), Suc w)"

definition first_writer :: "nat Step" where
  "first_writer =
     \<lparr>name = ''first'', arg_names = [], method_call = writes_one,
      return_names = [''x''], output_names = [], public_returns = [''x''],
      stage = NOT_STARTED, outputs = []\<rparr>"

definition second_writer :: "nat Step" where
  "second_writer =
     \<lparr>name = ''second'', arg_names = [''x''], method_call = writes_two,
      return_names = [''x''], output_names = [], public_returns = [''x''],
      stage = NOT_STARTED, outputs = []\<rparr>"

definition bystander :: "nat Step" where
  "bystander =
     \<lparr>name = ''bystander'', arg_names = [], method_call = valid_project,
      return_names = [], output_names = [], public_returns = [],
      stage = NOT_STARTED, outputs = []\<rparr>"

definition reader :: "nat Step" where
  "reader =
     \<lparr>name = ''reader'', arg_names = [''x''], method_call = thumbnail_made,
      return_names = [], output_names = [], public_returns = [],
      stage = NOT_STARTED, outputs = []\<rparr>"

text \<open>The file system of the sample runs: every file can be opened, or none can.\<close>

definition any_file :: "nat \<Rightarrow> string \<Rightarrow> bool" where
  "any_file w f = True"

definition no_file :: "nat \<Rightarrow> string \<Rightarrow> bool" where
  "no_file w f = False"

text \<open>A step that records an object as its output, and a step whose callable crashes.\<close>

definition returns_object :: "pyval list \<Rightarrow> nat \<Rightarrow> outcome \<times> nat" where
  "returns_object args w = (Returns (PObj 1), Suc w)"

definition obj_step :: "nat Step" where
  "obj_step =
     \<lparr>name = ''object'', arg_names = [], method_call = returns_object,
      return_names = [''project''], output_names = [''project''], public_returns = [],
      stage = NOT_STARTED, outputs = []\<rparr>"

definition crashes :: "pyval list \<Rightarrow> nat \<Rightarrow> outcome \<times> nat" where
  \<open>crashes args w =
     (Raises (OtherError ''RuntimeError'') [''  File "steps.py", line 1, in crashes''], Suc w)\<close>

definition crash_step :: "nat Step" where
  "crash_step =
     \<lparr>name = ''crash'', arg_names = [], method_call = crashes,
      return_names = [], output_names = [], public_returns = [],
      stage = NOT_STARTED, outputs = []\<rparr>"

text \<open>A step with two return names, both of them outputs, whose callable returns one value.\<close>

definition returns_single :: "pyval list \<Rightarrow> nat \<Rightarrow> outcome \<times> nat" where
  "returns_single args w = (Returns (PTuple [PInt 1]), Suc w)"

definition short_result_step :: "nat Step" where
  "short_result_step =
     \<lparr>name = ''short'', arg_names = [], method_call = returns_single,
      return_names = [''a'', ''b''], output_names = [''a'', ''b''], public_returns = [],
      stage = NOT_STARTED, outputs = []\<rparr>"

subsection \<open>Notions used in the statements\<close>

text \<open>The sink can be written: the standard output always, a file when it can be opened.\<close>

definition writable :: "('w \<Rightarrow> string \<Rightarrow> bool) \<Rightarrow> 'w \<Rightarrow> string option \<Rightarrow> bool" where
  "writable can_open w feedback_filename =
     (case feedback_filename of None \<Rightarrow> True | Some f \<Rightarrow> can_open w f)"

text \<open>The document with a given text, in the sink that the file name selects.\<close>

definition the_document :: "string option \<Rightarrow> string \<Rightarrow> emission" where
  "the_document feedback_filename text =
     (case feedback_filename of Some f \<Rightarrow> DocumentInFile f text | None \<Rightarrow> DocumentPrinted text)"

text \<open>A callable is deterministic when its result does not depend on the outside world.\<close>

definition deterministic :: "'w Step \<Rightarrow> bool" where
  "deterministic s = (\<forall>args w w'. fst (method_call s args w) = fst (method_call s args w'))"

text \<open>
  The list of the steps at the moment the loop has gone through the first \<open>n\<close> of them, or
  has been left by an exception before that.
\<close>

definition steps_after :: "nat \<Rightarrow> 'w \<Rightarrow> pydict \<Rightarrow> 'w Step list \<Rightarrow> 'w Step list" where
  "steps_after n w arg_values steps =
     fst (snd (run_steps w arg_values (take n steps))) @ drop n steps"

text \<open>No step of the later list is at an earlier stage than it is in the earlier list.\<close>

definition not_backwards :: "'w Step list \<Rightarrow> 'w Step list \<Rightarrow> bool" where
  "not_backwards earlier later =
     list_all2 (\<lambda>a b. stage_rank (stage a) \<le> stage_rank (stage b)) earlier later"

text \<open>The text with \<open>n\<close> more spaces at the beginning of every line after the first.\<close>

definition indent_more :: "nat \<Rightarrow> string \<Rightarrow> string" where
  "indent_more n s =
     concat (map (\<lambda>c. if c = CHR 0x0A then CHR 0x0A # replicate n CHR '' '' else [c]) s)"

section \<open>Properties\<close>

subsection \<open>Auxiliary facts about the loop\<close>

lemma step_body_only_outputs:
  "step_body w av s = (st, s', r) \<Longrightarrow> s' = s\<lparr>outputs := outputs s'\<rparr>"
  by (auto simp: step_body_def split: sum.splits prod.splits outcome.splits option.splits)

lemma step_body_stage:
  "step_body w av s = (st, s', r) \<Longrightarrow> stage s' = stage s"
  by (drule step_body_only_outputs) (metis Step.select_convs Step.surjective Step.update_convs(8))

lemma step_body_name:
  "step_body w av s = (st, s', r) \<Longrightarrow> name s' = name s"
  by (drule step_body_only_outputs) (metis Step.select_convs Step.surjective Step.update_convs(8))

lemma logger_context_stage:
  assumes "logger_context s (step_body w av) = (st, s', r)"
  shows "stage s' = (if r = None then SUCCEEDED else STARTED)"
proof -
  obtain st0 s0 r0 where b: "step_body w av (s\<lparr>stage := STARTED\<rparr>) = (st0, s0, r0)"
    by (metis prod_cases3)
  from step_body_stage[OF b] have "stage s0 = STARTED" by simp
  with assms b show ?thesis
    by (auto simp: logger_context_def split: option.splits)
qed

lemma logger_context_name:
  assumes "logger_context s (step_body w av) = (st, s', r)"
  shows "name s' = name s"
proof -
  obtain st0 s0 r0 where b: "step_body w av (s\<lparr>stage := STARTED\<rparr>) = (st0, s0, r0)"
    by (metis prod_cases3)
  from step_body_name[OF b] have "name s0 = name s" by simp
  with assms b show ?thesis
    by (auto simp: logger_context_def split: option.splits)
qed

lemma run_steps_names:
  "run_steps w av steps = (st, steps', r) \<Longrightarrow> map name steps' = map name steps"
proof (induction steps arbitrary: w av st steps' r)
  case Nil
  then show ?case by simp
next
  case (Cons s ss)
  obtain st1 s1 r1 where l: "logger_context s (step_body w av) = (st1, s1, r1)"
    by (metis prod_cases3)
  note n = logger_context_name[OF l]
  show ?case
  proof (cases r1)
    case None
    obtain w1 av1 where st1: "st1 = (w1, av1)" by (cases st1)
    obtain st2 ss2 r2 where rr: "run_steps w1 av1 ss = (st2, ss2, r2)" by (metis prod_cases3)
    from Cons.prems l None st1 rr have "steps' = s1 # ss2" by simp
    with Cons.IH[OF rr] n show ?thesis by simp
  next
    case (Some f)
    with Cons.prems l have "steps' = s1 # ss" by simp
    with n show ?thesis by simp
  qed
qed


lemma run_steps_append:
  "run_steps w av (xs @ ys) =
     (case run_steps w av xs of
        (st, xs', Some f) \<Rightarrow> (st, xs' @ ys, Some f)
      | ((w', av'), xs', None) \<Rightarrow>
          (case run_steps w' av' ys of (st, ys', r) \<Rightarrow> (st, xs' @ ys', r)))"
  by (induction xs arbitrary: w av) (auto split: prod.splits option.splits)

lemma run_steps_length:
  "run_steps w av steps = (st, steps', r) \<Longrightarrow> length steps' = length steps"
  by (drule run_steps_names) (metis length_map)

lemma step_body_raises:
  assumes "resolve_args av (arg_names step) = Inr args"
      and "method_call step args w = (Raises e tb, w')"
  shows "step_body w av step = ((w', av), step, Some (e, frame_call # tb))"
  using assms by (simp add: step_body_def)

lemma logger_context_raises:
  assumes "resolve_args av (arg_names step) = Inr args"
      and "method_call step args w = (Raises e tb, w')"
  shows "logger_context step (step_body w av) =
           ((w', av), step\<lparr>stage := STARTED\<rparr>, Some (e, frame_call # tb))"
proof -
  have "step_body w av (step\<lparr>stage := STARTED\<rparr>) =
          ((w', av), step\<lparr>stage := STARTED\<rparr>, Some (e, frame_call # tb))"
    using assms by (intro step_body_raises) simp_all
  then show ?thesis by (simp add: logger_context_def)
qed

lemma finalizer_feedback:
  "fst (finalizer openable steps fn fb) = AList.update ''steps'' (PList (map step_entry steps)) fb"
  by (simp add: finalizer_def Let_def split: option.splits sum.splits)

lemma execute_fields:
  assumes "run_steps w av steps = ((w', av'), steps', r)"
  shows "feedback (execute can_open steps av fn w) =
           AList.update ''steps'' (PList (map step_entry steps')) (fst (except_BaseException r))"
    and "final_world (execute can_open steps av fn w) = w'"
    and "final_arg_values (execute can_open steps av fn w) = av'"
    and "final_steps (execute can_open steps av fn w) = steps'"
  using assms finalizer_feedback[of "can_open w'" steps' fn "fst (except_BaseException r)"]
  by (auto simp: execute_def split: prod.splits)

lemma execute_sink:
  assumes "run_steps w av steps = ((w', av'), steps', r)"
  shows "emitted (execute can_open steps av fn w) =
           fst (snd (finalizer (can_open w') steps' fn (fst (except_BaseException r))))"
    and "propagated (execute can_open steps av fn w) =
           (case snd (snd (finalizer (can_open w') steps' fn (fst (except_BaseException r)))) of
              Some f \<Rightarrow> Some f
            | None \<Rightarrow> snd (except_BaseException r))"
  using assms by (auto simp: execute_def split: prod.splits option.splits)

lemma listed_steps_update:
  "listed_steps (AList.update ''steps'' (PList es) fb) = es"
  by (simp add: listed_steps_def update_conv')


lemma entry_field_name: "entry_field ''name'' (step_entry s) = Some (PStr (name s))"
  by (simp add: entry_field_def step_entry_def)


lemma listed_names_update:
  "listed_names (AList.update ''steps'' (PList (map step_entry ss)) fb) =
     map (\<lambda>n. Some (PStr n)) (map name ss)"
  by (simp add: listed_names_def listed_steps_update entry_field_name comp_def)

lemma map_of_update_steps_other:
  "k \<noteq> ''steps'' \<Longrightarrow> map_of (AList.update ''steps'' v fb) k = map_of fb k"
  by (simp add: update_conv')



lemma process_projectfile_executes:
  "process_projectfile can_open c project_filename thumbnail_filename feedback_filename w =
     Inr (execute can_open (the_steps c)
            [(''project_filename'', project_filename), (''thumbnail_filename'', thumbnail_filename)]
            feedback_filename w)"
  by (simp add: process_projectfile_def run_pipeline_def the_steps_def declared_steps_def
        Step_init_def)

lemmas sample_defs =
  the_steps_def declared_steps_def Step_init_def good_run_def not_found_run_def
  invalid_layers_run_def crashing_run_def initial_arg_values_def
  valid_project_def opened_project_def valid_layers_def thumbnail_made_def
  missing_project_def invalid_layers_def crashing_load_def

lemmas body_defs =
  logger_context_def step_body_def getitem_def wrap_return_values_def make_return_map_def

subsection \<open>Auxiliary facts about the registry, the return map and the stages\<close>

lemma copy_items_other:
  "copy_items rm ns target = (t', r) \<Longrightarrow> X \<notin> set ns \<Longrightarrow> map_of t' X = map_of target X"
  by (induction ns arbitrary: target)
     (auto simp: update_conv' split: sum.splits)

lemma copy_items_written:
  "copy_items rm ns target = (t', None) \<Longrightarrow> X \<in> set ns \<Longrightarrow> map_of t' X = map_of rm X"
proof (induction ns arbitrary: target)
  case Nil
  then show ?case by simp
next
  case (Cons n ns)
  from Cons.prems(1) obtain v where v: "getitem rm n = Inr v"
    and rest: "copy_items rm ns (AList.update n v target) = (t', None)"
    by (auto split: sum.splits)
  show ?case
  proof (cases "X \<in> set ns")
    case True
    then show ?thesis using Cons.IH[OF rest] by simp
  next
    case False
    with Cons.prems(2) have "X = n" by simp
    moreover have "map_of t' X = map_of (AList.update n v target) X"
      using copy_items_other[OF rest False] .
    moreover have "map_of rm n = Some v"
      using v by (simp add: getitem_def split: option.splits)
    ultimately show ?thesis by (simp add: update_conv')
  qed
qed

lemma step_body_registry_other:
  assumes "step_body w av s = ((w', av'), s', r)" and "X \<notin> set (public_returns s)"
  shows "map_of av' X = map_of av X"
  using assms
  by (auto simp: step_body_def split: sum.splits prod.splits outcome.splits option.splits
           dest: copy_items_other)

lemma logger_context_registry_other:
  assumes "logger_context s (step_body w av) = ((w', av'), s', r)"
      and "X \<notin> set (public_returns s)"
  shows "map_of av' X = map_of av X"
proof -
  obtain w0 av0 s0 r0 where b: "step_body w av (s\<lparr>stage := STARTED\<rparr>) = ((w0, av0), s0, r0)"
    by (metis prod_cases3 surj_pair)
  have "map_of av0 X = map_of av X"
    using step_body_registry_other[OF b] assms(2) by simp
  with assms(1) b show ?thesis
    by (auto simp: logger_context_def split: option.splits)
qed

lemma run_steps_registry_other:
  "run_steps w av steps = ((w', av'), steps', r)
   \<Longrightarrow> list_all (\<lambda>s. X \<notin> set (public_returns s)) steps
   \<Longrightarrow> map_of av' X = map_of av X"
proof (induction steps arbitrary: w av steps' r)
  case Nil
  then show ?case by simp
next
  case (Cons s ss)
  obtain w1 av1 s1 r1 where l: "logger_context s (step_body w av) = ((w1, av1), s1, r1)"
    by (metis prod_cases3 surj_pair)
  from Cons.prems(2) have notin: "X \<notin> set (public_returns s)"
    and rest: "list_all (\<lambda>s. X \<notin> set (public_returns s)) ss" by simp_all
  have one: "map_of av1 X = map_of av X"
    by (rule logger_context_registry_other[OF l notin])
  show ?case
  proof (cases r1)
    case None
    obtain st2 ss2 r2 where rr: "run_steps w1 av1 ss = (st2, ss2, r2)" by (metis prod_cases3)
    from Cons.prems(1) l None rr have "st2 = (w', av')" by simp
    with Cons.IH[of w1 av1 ss2 r2] rr rest one show ?thesis by simp
  next
    case (Some f)
    with Cons.prems(1) l have "av' = av1" by simp
    with one show ?thesis by simp
  qed
qed

lemma resolve_args_nth:
  "resolve_args av ns = Inr args \<Longrightarrow> i < length ns
   \<Longrightarrow> map_of av (ns ! i) = Some (args ! i)"
proof (induction ns arbitrary: args i)
  case Nil
  then show ?case by simp
next
  case (Cons n ns)
  from Cons.prems(1) obtain v vs where v: "getitem av n = Inr v"
    and vs: "resolve_args av ns = Inr vs" and args: "args = v # vs"
    by (auto split: sum.splits)
  show ?case
  proof (cases i)
    case 0
    with v args show ?thesis by (simp add: getitem_def split: option.splits)
  next
    case (Suc j)
    with Cons.prems(2) have "j < length ns" by simp
    from Cons.IH[OF vs this] Suc args show ?thesis by simp
  qed
qed

lemma step_success_public:
  assumes ok: "logger_context A (step_body w0 av0) = ((w1, av1), A', None)"
      and args: "resolve_args av0 (arg_names A) = Inr argsA"
      and ret: "method_call A argsA w0 = (Returns rv, wA)"
      and rm: "make_return_map (return_names A) (wrap_return_values (return_names A) rv) = Inr rm"
      and X: "X \<in> set (public_returns A)"
  shows "map_of av1 X = map_of rm X"
proof -
  from ok args ret rm obtain outs where
    "copy_items rm (public_returns A) av0 = (av1, None)"
    by (auto simp: logger_context_def step_body_def split: prod.splits option.splits)
  from copy_items_written[OF this X] show ?thesis .
qed

lemma construct_all_violation:
  "isl c \<Longrightarrow> isl (construct_all (before @ c # after))"
proof (induction before)
  case Nil
  then show ?case by (cases c) simp_all
next
  case (Cons b bs)
  then show ?case by (cases b) (auto split: sum.splits)
qed

lemma store_all_keys:
  "fst ` set (store_all kvs d) = fst ` set kvs \<union> fst ` set d"
  by (induction kvs d rule: store_all.induct) (auto simp: dom_update)

lemma set_zip_fst: "fst ` set (zip xs ys) = set (take (length ys) xs)"
proof (induction xs arbitrary: ys)
  case Nil
  then show ?case by simp
next
  case (Cons x xs)
  then show ?case by (cases ys) auto
qed

lemma store_all_map_of:
  "map_of (store_all kvs d) = map_of d ++ map_of (rev kvs)"
proof (induction kvs d rule: store_all.induct)
  case (1 d)
  then show ?case by simp
next
  case (2 k v kvs d)
  then show ?case
    by (auto simp: fun_eq_iff map_add_def update_conv' split: option.splits)
qed

lemma step_body_deterministic:
  assumes "deterministic s"
  shows "snd (fst (step_body w av s)) = snd (fst (step_body w' av s))
       \<and> snd (step_body w av s) = snd (step_body w' av s)"
proof (cases "resolve_args av (arg_names s)")
  case (Inl e)
  then show ?thesis by (simp add: step_body_def)
next
  case (Inr args)
  obtain o1 w1 where m1: "method_call s args w = (o1, w1)" by (cases "method_call s args w")
  obtain o2 w2 where m2: "method_call s args w' = (o2, w2)" by (cases "method_call s args w'")
  from assms m1 m2 have same: "o2 = o1"
    unfolding deterministic_def by (metis fst_conv)
  show ?thesis
    using Inr m1 m2 same
    by (auto simp: step_body_def split: outcome.splits sum.splits prod.splits option.splits)
qed

lemma logger_context_deterministic:
  assumes "deterministic s"
  shows "snd (fst (logger_context s (step_body w av))) = snd (fst (logger_context s (step_body w' av)))
       \<and> snd (logger_context s (step_body w av)) = snd (logger_context s (step_body w' av))"
proof -
  have "deterministic (s\<lparr>stage := STARTED\<rparr>)"
    using assms by (simp add: deterministic_def)
  from step_body_deterministic[OF this, of w av w'] show ?thesis
    by (auto simp: logger_context_def split: prod.splits option.splits)
qed

lemma run_steps_deterministic:
  "list_all deterministic steps \<Longrightarrow>
     snd (fst (run_steps w av steps)) = snd (fst (run_steps w' av steps))
   \<and> snd (run_steps w av steps) = snd (run_steps w' av steps)"
proof (induction steps arbitrary: w w' av)
  case Nil
  then show ?case by simp
next
  case (Cons s ss)
  from Cons.prems have s: "deterministic s" and ss: "list_all deterministic ss" by simp_all
  obtain x1 av1 s1 r1 where l1: "logger_context s (step_body w av) = ((x1, av1), s1, r1)"
    by (metis prod_cases3 surj_pair)
  obtain x2 av2 s2 r2 where l2: "logger_context s (step_body w' av) = ((x2, av2), s2, r2)"
    by (metis prod_cases3 surj_pair)
  from logger_context_deterministic[OF s, of w av w'] l1 l2
  have same: "av2 = av1" "s2 = s1" "r2 = r1" by simp_all
  show ?case
  proof (cases r1)
    case None
    from Cons.IH[OF ss, of x1 av1 x2] show ?thesis
      using l1 l2 same None by (auto split: prod.splits)
  next
    case (Some f)
    then show ?thesis using l1 l2 same by simp
  qed
qed

lemma not_backwards_refl: "not_backwards xs xs"
  by (simp add: not_backwards_def list_all2_same)

lemma not_backwards_trans:
  "not_backwards xs ys \<Longrightarrow> not_backwards ys zs \<Longrightarrow> not_backwards xs zs"
  unfolding not_backwards_def
  by (rule list_all2_trans[where ?P2.0 = "\<lambda>b c. stage_rank (stage b) \<le> stage_rank (stage c)"
                             and ?P1.0 = "\<lambda>a b. stage_rank (stage a) \<le> stage_rank (stage b)"])
     auto

lemma not_backwards_append:
  "not_backwards xs xs' \<Longrightarrow> not_backwards ys ys' \<Longrightarrow> not_backwards (xs @ ys) (xs' @ ys')"
  unfolding not_backwards_def by (rule list_all2_appendI)

lemma steps_after_Suc:
  assumes fresh: "list_all (\<lambda>s. stage s = NOT_STARTED) steps"
  shows "not_backwards (steps_after n w av steps) (steps_after (Suc n) w av steps)"
proof (cases "n < length steps")
  case False
  then show ?thesis by (simp add: steps_after_def not_backwards_refl)
next
  case True
  then have tk: "take (Suc n) steps = take n steps @ [steps ! n]"
    by (simp add: take_Suc_conv_app_nth)
  from True have dr: "drop n steps = steps ! n # drop (Suc n) steps"
    by (simp add: Cons_nth_drop_Suc)
  from fresh True have st: "stage (steps ! n) = NOT_STARTED"
    by (simp add: list_all_length)
  obtain x av1 xs' r where run: "run_steps w av (take n steps) = ((x, av1), xs', r)"
    by (metis prod_cases3 surj_pair)
  show ?thesis
  proof (cases r)
    case (Some f)
    with run tk dr show ?thesis
      by (simp add: steps_after_def run_steps_append not_backwards_refl)
  next
    case None
    obtain st1 s1 r1 where l: "logger_context (steps ! n) (step_body x av1) = (st1, s1, r1)"
      by (metis prod_cases3)
    have later: "steps_after (Suc n) w av steps = xs' @ s1 # drop (Suc n) steps"
      using run None tk l
      by (auto simp: steps_after_def run_steps_append split: prod.splits option.splits)
    have earlier: "steps_after n w av steps = xs' @ steps ! n # drop (Suc n) steps"
      using run dr by (simp add: steps_after_def)
    have "not_backwards (steps ! n # drop (Suc n) steps) (s1 # drop (Suc n) steps)"
      using st not_backwards_refl[of "drop (Suc n) steps"]
      by (simp add: not_backwards_def)
    with not_backwards_refl[of xs'] show ?thesis
      unfolding earlier later by (rule not_backwards_append)
  qed
qed

lemma steps_after_mono:
  assumes fresh: "list_all (\<lambda>s. stage s = NOT_STARTED) steps" and "n \<le> m"
  shows "not_backwards (steps_after n w av steps) (steps_after m w av steps)"
  using \<open>n \<le> m\<close>
proof (induction m)
  case 0
  then show ?case by (simp add: not_backwards_refl)
next
  case (Suc m)
  show ?case
  proof (cases "n = Suc m")
    case True
    then show ?thesis by (simp add: not_backwards_refl)
  next
    case False
    with Suc.prems have "n \<le> m" by simp
    from not_backwards_trans[OF Suc.IH[OF this] steps_after_Suc[OF fresh]]
    show ?thesis .
  qed
qed

lemma run_steps_final_stages:
  "list_all (\<lambda>s. stage s = NOT_STARTED) steps \<Longrightarrow> run_steps w av steps = (st, steps', r)
   \<Longrightarrow> \<exists>k. map stage steps' =
         replicate k SUCCEEDED @ (case r of None \<Rightarrow> [] | Some f \<Rightarrow> [STARTED])
           @ replicate (length steps - k - (case r of None \<Rightarrow> 0 | Some f \<Rightarrow> 1)) NOT_STARTED"
proof (induction steps arbitrary: w av st steps' r)
  case Nil
  then show ?case by simp
next
  case (Cons s ss)
  obtain st1 s1 r1 where l: "logger_context s (step_body w av) = (st1, s1, r1)"
    by (metis prod_cases3)
  from Cons.prems(1) have fresh: "list_all (\<lambda>s. stage s = NOT_STARTED) ss" by simp
  show ?case
  proof (cases r1)
    case (Some f)
    from Cons.prems(2) l Some have eq: "steps' = s1 # ss" "r = Some f" by simp_all
    from logger_context_stage[OF l] Some have "stage s1 = STARTED" by simp
    moreover have "map stage ss = replicate (length ss) NOT_STARTED"
      using fresh by (induction ss) simp_all
    ultimately have "map stage steps' = replicate 0 SUCCEEDED @ [STARTED]
         @ replicate (length (s # ss) - 0 - 1) NOT_STARTED"
      using eq by simp
    then show ?thesis using eq by (intro exI[of _ 0]) simp
  next
    case None
    obtain w1 av1 where st1: "st1 = (w1, av1)" by (cases st1)
    obtain st2 ss2 r2 where rr: "run_steps w1 av1 ss = (st2, ss2, r2)" by (metis prod_cases3)
    from Cons.prems(2) l None st1 rr have eq: "steps' = s1 # ss2" "r = r2" by simp_all
    from logger_context_stage[OF l] None have s1: "stage s1 = SUCCEEDED" by simp
    from Cons.IH[OF fresh rr] obtain k where
      k: "map stage ss2 = replicate k SUCCEEDED @ (case r2 of None \<Rightarrow> [] | Some f \<Rightarrow> [STARTED])
           @ replicate (length ss - k - (case r2 of None \<Rightarrow> 0 | Some f \<Rightarrow> 1)) NOT_STARTED"
      by blast
    show ?thesis
      using eq s1 k by (intro exI[of _ "Suc k"]) simp
  qed
qed

lemmas chain_defs =
  first_writer_def second_writer_def bystander_def reader_def writes_one_def writes_two_def
  valid_project_def thumbnail_made_def

subsection \<open>Auxiliary facts about the finalizer and the JSON writer\<close>

lemma finalizer_written:
  assumes "json_serialisable (PDict (AList.update ''steps'' (PList (map step_entry steps)) fb))"
      and "writable can_open w fn"
  shows "finalizer (can_open w) steps fn fb =
           (AList.update ''steps'' (PList (map step_entry steps)) fb,
            [the_document fn (encode 0 (PDict (AList.update ''steps'' (PList (map step_entry steps)) fb)))],
            None)"
  using assms
  by (auto simp: finalizer_def Let_def json_dumps_def writable_def the_document_def
           split: option.splits)

lemma finalizer_not_serialisable:
  assumes "\<not> json_serialisable (PDict (AList.update ''steps'' (PList (map step_entry steps)) fb))"
      and "writable can_open w fn"
  shows "finalizer (can_open w) steps fn fb =
           (AList.update ''steps'' (PList (map step_entry steps)) fb,
            [case fn of Some f \<Rightarrow> FileLeftTruncated f | None \<Rightarrow> HeaderPrinted],
            Some (TypeError ''Object is not JSON serializable'',
                  [case fn of Some f \<Rightarrow> frame_dump | None \<Rightarrow> frame_dumps]))"
  using assms
  by (auto simp: finalizer_def Let_def json_dumps_def writable_def split: option.splits)

lemma finalizer_not_writable:
  assumes "\<not> writable can_open w fn"
  shows "\<exists>f. fn = Some f \<and>
           finalizer (can_open w) steps fn fb =
             (AList.update ''steps'' (PList (map step_entry steps)) fb, [], Some (OSError f, [frame_open]))"
  using assms
  by (auto simp: finalizer_def Let_def writable_def split: option.splits)

lemmas extra_defs =
  obj_step_def crash_step_def returns_object_def crashes_def short_result_step_def
  returns_single_def any_file_def no_file_def two_names_step_def returns_triple_def

lemma getitem_Inr_iff: "(\<exists>v. getitem d k = Inr v) = (k \<in> fst ` set d)"
  by (auto simp: getitem_def map_of_eq_None_iff split: option.splits)
     (metis domI domIff map_of_eq_None_iff)

lemma copy_items_ok_iff:
  "(snd (copy_items rm ns target) = None) = (set ns \<subseteq> fst ` set rm)"
proof (induction ns arbitrary: target)
  case Nil
  then show ?case by simp
next
  case (Cons n ns)
  show ?case
  proof (cases "getitem rm n")
    case (Inl e)
    with getitem_Inr_iff[of rm n] show ?thesis by auto
  next
    case (Inr v)
    with getitem_Inr_iff[of rm n] Cons.IH[of "AList.update n v target"] show ?thesis by auto
  qed
qed

lemma copy_items_KeyError:
  "snd (copy_items rm ns target) = Some e \<Longrightarrow> \<exists>k. e = KeyError k \<and> k \<in> set ns \<and> k \<notin> fst ` set rm"
proof (induction ns arbitrary: target)
  case Nil
  then show ?case by simp
next
  case (Cons n ns)
  show ?case
  proof (cases "getitem rm n")
    case (Inl x)
    then have "x = KeyError n" "n \<notin> fst ` set rm"
      using getitem_Inr_iff[of rm n] by (auto simp: getitem_def split: option.splits)
    with Cons.prems Inl show ?thesis by auto
  next
    case (Inr v)
    with Cons.prems have "snd (copy_items rm ns (AList.update n v target)) = Some e" by simp
    from Cons.IH[OF this] show ?thesis by auto
  qed
qed

lemma step_body_after_return:
  assumes args: "resolve_args av (arg_names s) = Inr args"
      and ret: "method_call s args w = (Returns v, w')"
      and rm: "make_return_map (return_names s) (wrap_return_values (return_names s) v) = Inr rm"
  shows "(snd (snd (step_body w av s)) = None)
           = (set (output_names s) \<union> set (public_returns s) \<subseteq> fst ` set rm)"
    and "snd (snd (step_body w av s)) = Some (e, tb) \<Longrightarrow>
           \<exists>k. e = KeyError k \<and> k \<in> set (output_names s) \<union> set (public_returns s)
               \<and> k \<notin> fst ` set rm"
proof -
  obtain outs r1 where c1: "copy_items rm (output_names s) (outputs s) = (outs, r1)"
    by (cases "copy_items rm (output_names s) (outputs s)")
  obtain av1 r2 where c2: "copy_items rm (public_returns s) av = (av1, r2)"
    by (cases "copy_items rm (public_returns s) av")
  have body: "snd (snd (step_body w av s)) =
                (case r1 of Some x \<Rightarrow> Some (x, [frame_outputs])
                 | None \<Rightarrow> (case r2 of Some x \<Rightarrow> Some (x, [frame_public]) | None \<Rightarrow> None))"
    using args ret rm c1 c2 by (simp add: step_body_def split: option.splits)
  have i1: "(r1 = None) = (set (output_names s) \<subseteq> fst ` set rm)"
    using copy_items_ok_iff[of rm "output_names s" "outputs s"] c1 by simp
  have i2: "(r2 = None) = (set (public_returns s) \<subseteq> fst ` set rm)"
    using copy_items_ok_iff[of rm "public_returns s" av] c2 by simp
  show "(snd (snd (step_body w av s)) = None)
           = (set (output_names s) \<union> set (public_returns s) \<subseteq> fst ` set rm)"
    unfolding body using i1 i2 by (auto split: option.splits)
  show "\<exists>k. e = KeyError k \<and> k \<in> set (output_names s) \<union> set (public_returns s)
               \<and> k \<notin> fst ` set rm"
    if "snd (snd (step_body w av s)) = Some (e, tb)"
  proof (cases r1)
    case (Some x)
    with that body have "x = e" by simp
    with Some c1 copy_items_KeyError[of rm "output_names s" "outputs s" e] show ?thesis by auto
  next
    case None
    with that body obtain x where "r2 = Some x" "x = e" by (auto split: option.splits)
    with c2 copy_items_KeyError[of rm "public_returns s" av e] show ?thesis by auto
  qed
qed

lemma sort_key_unique:
  assumes "set xs = set ys" "distinct (map f xs)" "distinct (map f ys)"
  shows "sort_key f xs = sort_key f ys"
proof -
  let ?a = "sort_key f xs" and ?b = "sort_key f ys"
  have inj: "inj_on f (set xs)" using assms(2) by (simp add: distinct_map)
  have da: "distinct (map f ?a)" using assms(2) by (simp add: distinct_map)
  have db: "distinct (map f ?b)" using assms(3) by (simp add: distinct_map)
  have "set (map f ?a) = set (map f ?b)" using assms(1) by simp
  with da db have "map f ?a = map f ?b"
    by (intro sorted_distinct_set_unique) (simp_all add: sorted_sort_key)
  moreover have "inj_on f (set ?a \<union> set ?b)" using inj assms(1) by simp
  ultimately show ?thesis by (simp add: inj_on_map_eq_map)
qed

lemma encode_key_order:
  assumes "set kvs = set kvs'" "distinct (map fst kvs)" "distinct (map fst kvs')"
  shows "encode level (PDict kvs) = encode level (PDict kvs')"
proof -
  have "sort_key fst kvs = sort_key fst kvs'"
    by (rule sort_key_unique[OF assms])
  moreover have "(kvs = []) = (kvs' = [])" using assms(1) by auto
  ultimately show ?thesis by simp
qed

lemma encode_sorted_keys:
  "encode level (PDict kvs) = encode level (PDict (sort_key fst kvs))
   \<and> sorted (map fst (sort_key fst kvs))"
proof -
  have "sort_key fst (sort_key fst kvs) = sort_key fst kvs"
    by (rule sort_key_id_if_sorted) (rule sorted_sort_key)
  moreover have "(sort_key fst kvs = []) = (kvs = [])"
    by (metis length_sort length_0_conv)
  ultimately show ?thesis by (simp add: sorted_sort_key)
qed

lemma indent_more_append [simp]:
  "indent_more n (a @ b) = indent_more n a @ indent_more n b"
  by (simp add: indent_more_def)

lemma indent_more_Nil [simp]: "indent_more n [] = []"
  by (simp add: indent_more_def)

lemma indent_more_Cons:
  "indent_more n (c # s) =
     (if c = CHR 0x0A then CHR 0x0A # replicate n CHR '' '' else [c]) @ indent_more n s"
  by (simp add: indent_more_def)

lemma indent_more_id: "CHR 0x0A \<notin> set s \<Longrightarrow> indent_more n s = s"
  by (induction s) (auto simp: indent_more_Cons indent_more_def)

lemma indent_more_newline_indent:
  "indent_more (2 * k) (newline_indent level) = newline_indent (level + k)"
proof -
  have "CHR 0x0A \<notin> set (replicate (2 * level) CHR '' '')" by auto
  then have "indent_more (2 * k) (replicate (2 * level) CHR '' '') = replicate (2 * level) CHR '' ''"
    by (rule indent_more_id)
  then show ?thesis
    by (simp add: newline_indent_def indent_more_Cons replicate_add[symmetric] algebra_simps)
qed

lemma indent_more_join:
  "indent_more n (join sep xs) = join (indent_more n sep) (map (indent_more n) xs)"
  by (induction sep xs rule: join.induct) simp_all

lemma digit_char_no_newline: "n < 10 \<Longrightarrow> digit_char n \<noteq> CHR 0x0A"
proof
  assume n: "n < 10" and "digit_char n = CHR 0x0A"
  then have "of_char (char_of (48 + n) :: char) = (of_char (CHR 0x0A) :: nat)"
    by (simp add: digit_char_def)
  with n show False by (simp add: of_char_of)
qed

lemma decimal_no_newline: "CHR 0x0A \<notin> set (decimal n)"
proof (induction n rule: decimal.induct)
  case (1 n)
  show ?case
  proof (cases "n < 10")
    case True
    then show ?thesis using digit_char_no_newline[of n] by (subst decimal.simps) auto
  next
    case False
    have "n mod 10 < 10" by simp
    from digit_char_no_newline[OF this] "1.IH"[OF False] False show ?thesis
      by (subst decimal.simps) auto
  qed
qed

lemma int_repr_no_newline: "CHR 0x0A \<notin> set (int_repr i)"
  using decimal_no_newline by (auto simp: int_repr_def)

lemma hex_digit_no_newline: "n < 16 \<Longrightarrow> hex_digit n \<noteq> CHR 0x0A"
proof
  assume n: "n < 16" and h: "hex_digit n = CHR 0x0A"
  then have "of_char (hex_digit n) = (of_char (CHR 0x0A) :: nat)" by simp
  with n show False by (simp add: hex_digit_def of_char_of split: if_splits)
qed

lemma escape_char_no_newline: "CHR 0x0A \<notin> set (escape_char c)"
proof -
  have "(of_char c :: nat) < 256" by simp
  then have "(of_char c :: nat) div 16 < 16" by (intro less_mult_imp_div_less) simp
  then have a: "hex_digit (of_char c div 16) \<noteq> CHR 0x0A" by (rule hex_digit_no_newline)
  have "(of_char c :: nat) mod 16 < 16" by simp
  then have b: "hex_digit (of_char c mod 16) \<noteq> CHR 0x0A" by (rule hex_digit_no_newline)
  show ?thesis using a b by (auto simp: escape_char_def)
qed

lemma encode_str_no_newline: "CHR 0x0A \<notin> set (encode_str s)"
  using escape_char_no_newline by (auto simp: encode_str_def)

lemma encode_indent:
  "encode (level + k) v = indent_more (2 * k) (encode level v)"
proof (induction v arbitrary: level)
  case PNone
  show ?case by (simp add: indent_more_Cons)
next
  case (PBool b)
  show ?case by (simp add: indent_more_Cons)
next
  case (PInt i)
  show ?case using indent_more_id[OF int_repr_no_newline] by simp
next
  case (PStr s)
  show ?case using indent_more_id[OF encode_str_no_newline] by simp
next
  case (PTuple vs)
  have items: "map (encode (Suc (level + k))) vs = map (indent_more (2 * k)) (map (encode (Suc level)) vs)"
    using PTuple[of _ "Suc level"] by simp
  have unfolded: "encode (level + k) (PTuple vs) =
      (if vs = [] then ''[]''
       else ''['' @ newline_indent (Suc (level + k))
            @ join ('','' @ newline_indent (Suc (level + k)))
                (map (indent_more (2 * k)) (map (encode (Suc level)) vs))
            @ newline_indent (level + k) @ '']'')"
    unfolding items[symmetric] by simp
  show ?case
    unfolding unfolded
    using indent_more_newline_indent[of k "Suc level"] indent_more_newline_indent[of k level]
    by (simp add: indent_more_join indent_more_Cons)
next
  case (PList vs)
  have items: "map (encode (Suc (level + k))) vs = map (indent_more (2 * k)) (map (encode (Suc level)) vs)"
    using PList[of _ "Suc level"] by simp
  have unfolded: "encode (level + k) (PList vs) =
      (if vs = [] then ''[]''
       else ''['' @ newline_indent (Suc (level + k))
            @ join ('','' @ newline_indent (Suc (level + k)))
                (map (indent_more (2 * k)) (map (encode (Suc level)) vs))
            @ newline_indent (level + k) @ '']'')"
    unfolding items[symmetric] by simp
  show ?case
    unfolding unfolded
    using indent_more_newline_indent[of k "Suc level"] indent_more_newline_indent[of k level]
    by (simp add: indent_more_join indent_more_Cons)
next
  case (PDict kvs)
  have item: "encode_str a @ '': '' @ encode (Suc (level + k)) b
              = indent_more (2 * k) (encode_str a @ '': '' @ encode (Suc level) b)"
    if "(a, b) \<in> set kvs" for a b
  proof -
    have "encode (Suc level + k) b = indent_more (2 * k) (encode (Suc level) b)"
      using PDict[of "(a, b)" b "Suc level"] that by simp
    then show ?thesis
      using indent_more_id[OF encode_str_no_newline, of "2 * k" a]
      by (simp add: indent_more_Cons)
  qed
  have items: "map (\<lambda>(a, b). encode_str a @ '': '' @ encode (Suc (level + k)) b) (sort_key fst kvs)
        = map (indent_more (2 * k))
            (map (\<lambda>(a, b). encode_str a @ '': '' @ encode (Suc level) b) (sort_key fst kvs))"
    using item by (auto simp: case_prod_beta)
  have unfolded: "encode (level + k) (PDict kvs) =
      (if kvs = [] then ''{}''
       else ''{'' @ newline_indent (Suc (level + k))
            @ join ('','' @ newline_indent (Suc (level + k)))
                (map (indent_more (2 * k))
                   (map (\<lambda>(a, b). encode_str a @ '': '' @ encode (Suc level) b) (sort_key fst kvs)))
            @ newline_indent (level + k) @ ''}'')"
    unfolding items[symmetric] by simp
  show ?case
    unfolding unfolded
    using indent_more_newline_indent[of k "Suc level"] indent_more_newline_indent[of k level]
    by (simp add: indent_more_join indent_more_Cons)
next
  case (PObj n)
  show ?case by simp
qed

lemma finalizer_same_sink:
  "writable c1 w1 fn = writable c2 w2 fn \<Longrightarrow>
     finalizer (c1 w1) steps fn fb = finalizer (c2 w2) steps fn fb"
  by (auto simp: finalizer_def writable_def Let_def split: option.splits)

subsection \<open>The claims\<close>





text \<open>
  Claim C3, as amended. Whatever way the loop ends (no exception, a domain error that the
  handler takes, any other exception), the finalizer assembles a feedback that names every
  declared step in the order of the declaration. When this feedback can be serialised and
  the sink can be written, exactly one document is produced, with the text of the feedback,
  and what leaves \<^verbatim>\<open>process_projectfile\<close> is what the handler left in flight. Otherwise no
  document is produced, and the exception of the writer or of \<^verbatim>\<open>open\<close> leaves
  \<^verbatim>\<open>process_projectfile\<close>.
\<close>

theorem feedback_document_on_every_exit:
  "listed_names (feedback (execute can_open steps arg_values feedback_filename w)) =
       map (\<lambda>n. Some (PStr n)) (map name steps)
   \<and> length (listed_steps (feedback (execute can_open steps arg_values feedback_filename w)))
       = length steps
   \<and> (json_serialisable (PDict (feedback (execute can_open steps arg_values feedback_filename w)))
        \<and> writable can_open (final_world (execute can_open steps arg_values feedback_filename w))
             feedback_filename
      \<longrightarrow> emitted (execute can_open steps arg_values feedback_filename w) =
            [the_document feedback_filename
               (encode 0 (PDict (feedback (execute can_open steps arg_values feedback_filename w))))]
        \<and> propagated (execute can_open steps arg_values feedback_filename w) =
            snd (except_BaseException (snd (snd (run_steps w arg_values steps)))))
   \<and> (\<not> json_serialisable (PDict (feedback (execute can_open steps arg_values feedback_filename w)))
        \<or> \<not> writable can_open (final_world (execute can_open steps arg_values feedback_filename w))
             feedback_filename
      \<longrightarrow> filter is_document (emitted (execute can_open steps arg_values feedback_filename w)) = []
        \<and> propagated (execute can_open steps arg_values feedback_filename w) \<noteq> None)"
proof -
  let ?r = "execute can_open steps arg_values feedback_filename w"
  obtain w' av' steps' r where run: "run_steps w arg_values steps = ((w', av'), steps', r)"
    by (metis prod_cases3 surj_pair)
  let ?base = "fst (except_BaseException r)"
  let ?fb = "AList.update ''steps'' (PList (map step_entry steps')) ?base"
  note f = execute_fields[OF run, of can_open feedback_filename]
  note s = execute_sink[OF run, of can_open feedback_filename]
  have names: "map name steps' = map name steps"
    by (rule run_steps_names[OF run])
  have len: "length steps' = length steps"
    by (rule run_steps_length[OF run])
  have a: "listed_names (feedback ?r) = map (\<lambda>n. Some (PStr n)) (map name steps)"
    unfolding f(1) listed_names_update using names by simp
  have b: "length (listed_steps (feedback ?r)) = length steps"
    unfolding f(1) listed_steps_update using len by simp
  have c: "emitted ?r = [the_document feedback_filename (encode 0 (PDict (feedback ?r)))]
         \<and> propagated ?r = snd (except_BaseException (snd (snd (run_steps w arg_values steps))))"
    if "json_serialisable (PDict (feedback ?r))" "writable can_open (final_world ?r) feedback_filename"
  proof -
    from that have ser: "json_serialisable (PDict ?fb)" and wr: "writable can_open w' feedback_filename"
      unfolding f by simp_all
    from finalizer_written[OF ser wr] show ?thesis
      unfolding s f(1) using run by simp
  qed
  have d: "filter is_document (emitted ?r) = [] \<and> propagated ?r \<noteq> None"
    if "\<not> json_serialisable (PDict (feedback ?r))
        \<or> \<not> writable can_open (final_world ?r) feedback_filename"
  proof (cases "writable can_open w' feedback_filename")
    case True
    with that have "\<not> json_serialisable (PDict ?fb)" unfolding f by simp
    from finalizer_not_serialisable[OF this True] show ?thesis
      unfolding s by (simp split: option.splits)
  next
    case False
    from finalizer_not_writable[OF False, of steps' ?base] show ?thesis
      unfolding s by auto
  qed
  from a b c d show ?thesis by blast
qed

text \<open>
  The call of \<^verbatim>\<open>process_projectfile\<close> in which opening the project crashes, with a file for
  the feedback: one document in the file; none when the file cannot be opened; none for a
  step that records an object.
\<close>

theorem feedback_document_on_every_exit_witness:
  "process_projectfile any_file crashing_run (PStr ''/x.qgs'') (PStr ''/tmp/thumbnail.png'')
       (Some ''/tmp/feedback.json'') 0
     = Inr (execute any_file (the_steps crashing_run) initial_arg_values (Some ''/tmp/feedback.json'') 0)
   \<and> listed_names (feedback (execute any_file (the_steps crashing_run) initial_arg_values
                 (Some ''/tmp/feedback.json'') 0)) =
       [Some (PStr ''Project Validity Check''), Some (PStr ''Opening Check''),
        Some (PStr ''Layer Validity Check''), Some (PStr ''Generate Thumbnail Image'')]
   \<and> emitted (execute any_file (the_steps crashing_run) initial_arg_values
                 (Some ''/tmp/feedback.json'') 0) =
       [DocumentInFile ''/tmp/feedback.json''
          (encode 0 (PDict (feedback (execute any_file (the_steps crashing_run) initial_arg_values
                 (Some ''/tmp/feedback.json'') 0))))]
   \<and> filter is_document (emitted (execute no_file (the_steps crashing_run) initial_arg_values
                 (Some ''/tmp/feedback.json'') 0)) = []
   \<and> filter is_document (emitted (execute any_file [obj_step] [] None 0)) = []"
proof -
  let ?ok = "execute any_file (the_steps crashing_run) initial_arg_values (Some ''/tmp/feedback.json'') 0"
  let ?ro = "execute no_file (the_steps crashing_run) initial_arg_values (Some ''/tmp/feedback.json'') 0"
  let ?obj = "execute any_file [obj_step] [] None 0"
  have names: "map name (the_steps crashing_run) =
       [''Project Validity Check'', ''Opening Check'', ''Layer Validity Check'',
        ''Generate Thumbnail Image'']"
    by (simp add: sample_defs)
  have ser: "json_serialisable (PDict (feedback ?ok))"
    by (simp add: execute_def finalizer_def Let_def sample_defs body_defs extra_defs step_entry_def
          json_dumps_def)
  have wr: "writable any_file (final_world ?ok) (Some ''/tmp/feedback.json'')"
    by (simp add: writable_def any_file_def)
  have nwr: "\<not> writable no_file (final_world ?ro) (Some ''/tmp/feedback.json'')"
    by (simp add: writable_def no_file_def)
  have nser: "\<not> json_serialisable (PDict (feedback ?obj))"
    by (simp add: execute_def finalizer_def Let_def body_defs extra_defs step_entry_def
          json_dumps_def)
  show ?thesis
    using feedback_document_on_every_exit[of any_file "the_steps crashing_run" initial_arg_values
            "Some ''/tmp/feedback.json''" 0]
      feedback_document_on_every_exit[of no_file "the_steps crashing_run" initial_arg_values
            "Some ''/tmp/feedback.json''" 0]
      feedback_document_on_every_exit[of any_file "[obj_step]" "[]" None 0]
      names ser wr nwr nser
    by (simp add: process_projectfile_executes initial_arg_values_def the_document_def)
qed

text \<open>
  Against claim C3 as it was stated: a step that the constructor accepts records an object as
  its output and the loop ends without an exception, but the writer raises: only the line
  \<^verbatim>\<open>Feedback:\<close> is printed, or the file is left with an incomplete text, and no document is
  produced.
\<close>

theorem no_document_for_object_output_counterexample:
  "Step_init ''object'' [] returns_object [''project''] [''project''] [] = Inr obj_step
   \<and> snd (snd (run_steps 0 [] [obj_step])) = None
   \<and> emitted (execute any_file [obj_step] [] None 0) = [HeaderPrinted]
   \<and> emitted (execute any_file [obj_step] [] (Some ''/tmp/feedback.json'') 0)
       = [FileLeftTruncated ''/tmp/feedback.json'']
   \<and> propagated (execute any_file [obj_step] [] None 0)
       = Some (TypeError ''Object is not JSON serializable'', [frame_dumps])"
  by (simp add: Step_init_def execute_def finalizer_def Let_def body_defs extra_defs step_entry_def
        json_dumps_def)

text \<open>
  Claim C4. Step \<open>A\<close> succeeds, \<open>X\<close> is among its public returns and its return map binds
  \<open>X\<close> to \<open>V\<close>. The steps between \<open>A\<close> and \<open>B\<close> run without an exception and none of them has
  \<open>X\<close> among its public returns, so that \<open>A\<close> is the last step before \<open>B\<close> that wrote \<open>X\<close>.
  Then the callable of \<open>B\<close> gets \<open>V\<close> at every position where \<open>B\<close> declares \<open>X\<close>. With a step
  in between that also returns \<open>X\<close>, that step is the \<open>A\<close> of the statement: the value written
  last is the one received.
\<close>

theorem public_return_reaches_later_step:
  assumes A_ok: "logger_context A (step_body w0 av0) = ((w1, av1), A', None)"
      and A_args: "resolve_args av0 (arg_names A) = Inr argsA"
      and A_ret: "method_call A argsA w0 = (Returns rv, wA)"
      and A_map: "make_return_map (return_names A) (wrap_return_values (return_names A) rv) = Inr rm"
      and A_pub: "X \<in> set (public_returns A)"
      and A_val: "map_of rm X = Some V"
      and between: "run_steps w1 av1 between = ((w2, av2), between', None)"
      and no_writer: "list_all (\<lambda>s. X \<notin> set (public_returns s)) between"
      and B_args: "resolve_args av2 (arg_names B) = Inr argsB"
      and B_in: "i < length (arg_names B)" "arg_names B ! i = X"
  shows "argsB ! i = V"
proof -
  have "map_of av1 X = Some V"
    using step_success_public[OF A_ok A_args A_ret A_map A_pub] A_val by simp
  moreover have "map_of av2 X = map_of av1 X"
    by (rule run_steps_registry_other[OF between no_writer])
  moreover have "map_of av2 X = Some (argsB ! i)"
    using resolve_args_nth[OF B_args B_in(1)] B_in(2) by simp
  ultimately show ?thesis by simp
qed

text \<open>
  The chain of four steps: the second step receives the 1 of the first; the fourth receives
  the 2 of the second, with a step in between that publishes nothing.
\<close>

theorem public_return_reaches_later_step_witness:
  "run_steps 0 [] [first_writer, second_writer, bystander, reader] =
     ((4, [(''x'', PInt 2)]),
      map (\<lambda>s. s\<lparr>stage := SUCCEEDED\<rparr>) [first_writer, second_writer, bystander, reader], None)
   \<and> resolve_args [(''x'', PInt 1)] (arg_names second_writer) = Inr [PInt 1]
   \<and> resolve_args [(''x'', PInt 2)] (arg_names reader) = Inr [PInt 2]
   \<and> [PInt 1] ! 0 = PInt 1 \<and> [PInt 2] ! 0 = PInt 2"
proof -
  have run: "run_steps 0 [] [first_writer, second_writer, bystander, reader] =
     ((4, [(''x'', PInt 2)]),
      map (\<lambda>s. s\<lparr>stage := SUCCEEDED\<rparr>) [first_writer, second_writer, bystander, reader], None)"
    by (simp add: chain_defs body_defs)
  have A1: "logger_context first_writer (step_body 0 []) =
              ((1, [(''x'', PInt 1)]), first_writer\<lparr>stage := SUCCEEDED\<rparr>, None)"
    by (simp add: chain_defs body_defs)
  have A1_args: "resolve_args [] (arg_names first_writer) = Inr []"
    by (simp add: chain_defs)
  have A1_ret: "method_call first_writer [] 0 = (Returns (PInt 1), 1)"
    by (simp add: chain_defs)
  have A1_map: "make_return_map (return_names first_writer)
                  (wrap_return_values (return_names first_writer) (PInt 1)) = Inr [(''x'', PInt 1)]"
    by (simp add: chain_defs body_defs)
  have none: "run_steps 1 [(''x'', PInt 1)] [] = ((1, [(''x'', PInt 1)]), [], None)"
    by simp
  have B1: "resolve_args [(''x'', PInt 1)] (arg_names second_writer) = Inr [PInt 1]"
    by (simp add: chain_defs body_defs)
  have first: "[PInt 1] ! 0 = PInt 1"
    using public_return_reaches_later_step[OF A1 A1_args A1_ret A1_map _ _ none _ B1, of "''x''" "PInt 1" 0]
    by (simp add: chain_defs)
  have A2: "logger_context second_writer (step_body 1 [(''x'', PInt 1)]) =
              ((2, [(''x'', PInt 2)]), second_writer\<lparr>stage := SUCCEEDED\<rparr>, None)"
    by (simp add: chain_defs body_defs)
  have A2_args: "resolve_args [(''x'', PInt 1)] (arg_names second_writer) = Inr [PInt 1]"
    by (simp add: chain_defs body_defs)
  have A2_ret: "method_call second_writer [PInt 1] 1 = (Returns (PInt 2), 2)"
    by (simp add: chain_defs)
  have A2_map: "make_return_map (return_names second_writer)
                  (wrap_return_values (return_names second_writer) (PInt 2)) = Inr [(''x'', PInt 2)]"
    by (simp add: chain_defs body_defs)
  have between: "run_steps 2 [(''x'', PInt 2)] [bystander] =
                   ((3, [(''x'', PInt 2)]), [bystander\<lparr>stage := SUCCEEDED\<rparr>], None)"
    by (simp add: chain_defs body_defs)
  have no_writer: "list_all (\<lambda>s. ''x'' \<notin> set (public_returns s)) [bystander]"
    by (simp add: chain_defs)
  have B2: "resolve_args [(''x'', PInt 2)] (arg_names reader) = Inr [PInt 2]"
    by (simp add: chain_defs body_defs)
  have second: "[PInt 2] ! 0 = PInt 2"
    using public_return_reaches_later_step[OF A2 A2_args A2_ret A2_map _ _ between no_writer B2,
            of "PInt 2" 0]
    by (simp add: chain_defs)
  from run B1 B2 first second show ?thesis by simp
qed

text \<open>
  Claim C5, as amended. An exception that leaves the loop is taken by the handler exactly
  when it belongs to the domain family: then the message and the traceback are in the
  feedback; for any other exception the feedback has neither \<^verbatim>\<open>error\<close> nor
  \<^verbatim>\<open>error_stack\<close>. The finalizer runs in both cases. When the feedback can be serialised and
  the sink can be written, the document is emitted, nothing leaves \<^verbatim>\<open>process_projectfile\<close>
  after a domain error, and any other exception leaves it as it was raised. When the writer
  or \<^verbatim>\<open>open\<close> raises in the finalizer, that exception is the one that leaves
  \<^verbatim>\<open>process_projectfile\<close>, in the place of the one in flight.
\<close>

theorem handler_takes_domain_family:
  assumes run: "run_steps w arg_values steps = ((w', av'), steps', Some (e, tb))"
  shows "(is_BaseException e \<longrightarrow>
            (\<exists>err. e = DomainError err
                \<and> map_of (feedback (execute can_open steps arg_values feedback_filename w)) ''error''
                    = Some (PStr (str_of_error err)))
          \<and> map_of (feedback (execute can_open steps arg_values feedback_filename w)) ''error_stack''
              = Some (PList (map PStr tb)))
       \<and> (\<not> is_BaseException e \<longrightarrow>
            map_of (feedback (execute can_open steps arg_values feedback_filename w)) ''error'' = None
          \<and> map_of (feedback (execute can_open steps arg_values feedback_filename w)) ''error_stack''
              = None)
       \<and> listed_steps (feedback (execute can_open steps arg_values feedback_filename w))
           = map step_entry steps'
       \<and> (json_serialisable (PDict (feedback (execute can_open steps arg_values feedback_filename w)))
            \<and> writable can_open w' feedback_filename \<longrightarrow>
            propagated (execute can_open steps arg_values feedback_filename w)
              = (if is_BaseException e then None else Some (e, tb))
          \<and> emitted (execute can_open steps arg_values feedback_filename w) =
              [the_document feedback_filename
                 (encode 0 (PDict (feedback (execute can_open steps arg_values feedback_filename w))))])
       \<and> (\<not> json_serialisable (PDict (feedback (execute can_open steps arg_values feedback_filename w)))
            \<and> writable can_open w' feedback_filename \<longrightarrow>
            propagated (execute can_open steps arg_values feedback_filename w)
              = Some (TypeError ''Object is not JSON serializable'',
                      [case feedback_filename of Some f \<Rightarrow> frame_dump | None \<Rightarrow> frame_dumps]))
       \<and> (\<not> writable can_open w' feedback_filename \<longrightarrow>
            (\<exists>f. feedback_filename = Some f
               \<and> propagated (execute can_open steps arg_values feedback_filename w)
                   = Some (OSError f, [frame_open])))"
proof -
  let ?r = "execute can_open steps arg_values feedback_filename w"
  let ?base = "fst (except_BaseException (Some (e, tb)))"
  let ?fb = "AList.update ''steps'' (PList (map step_entry steps')) ?base"
  note f = execute_fields[OF run, of can_open feedback_filename]
  note s = execute_sink[OF run, of can_open feedback_filename]
  have caught: "(\<exists>err. e = DomainError err \<and> map_of (feedback ?r) ''error'' = Some (PStr (str_of_error err)))
          \<and> map_of (feedback ?r) ''error_stack'' = Some (PList (map PStr tb))"
    if "is_BaseException e"
    using that unfolding f(1) by (cases e) (simp_all add: map_of_update_steps_other)
  have passed: "map_of (feedback ?r) ''error'' = None \<and> map_of (feedback ?r) ''error_stack'' = None"
    if "\<not> is_BaseException e"
    using that unfolding f(1) by (cases e) (simp_all add: map_of_update_steps_other)
  have listed: "listed_steps (feedback ?r) = map step_entry steps'"
    unfolding f(1) by (rule listed_steps_update)
  have flight: "snd (except_BaseException (Some (e, tb))) = (if is_BaseException e then None else Some (e, tb))"
    by (cases e) simp_all
  have written: "propagated ?r = (if is_BaseException e then None else Some (e, tb))
        \<and> emitted ?r = [the_document feedback_filename (encode 0 (PDict (feedback ?r)))]"
    if "json_serialisable (PDict (feedback ?r)) \<and> writable can_open w' feedback_filename"
  proof -
    from that have ser: "json_serialisable (PDict ?fb)" and wr: "writable can_open w' feedback_filename"
      unfolding f(1) by simp_all
    from finalizer_written[OF ser wr] flight show ?thesis
      unfolding s f(1) by simp
  qed
  have replaced: "propagated ?r = Some (TypeError ''Object is not JSON serializable'',
                      [case feedback_filename of Some f \<Rightarrow> frame_dump | None \<Rightarrow> frame_dumps])"
    if "\<not> json_serialisable (PDict (feedback ?r)) \<and> writable can_open w' feedback_filename"
  proof -
    from that have nser: "\<not> json_serialisable (PDict ?fb)" and wr: "writable can_open w' feedback_filename"
      unfolding f(1) by simp_all
    from finalizer_not_serialisable[OF nser wr] show ?thesis
      unfolding s by simp
  qed
  have unopened: "\<exists>f. feedback_filename = Some f \<and> propagated ?r = Some (OSError f, [frame_open])"
    if "\<not> writable can_open w' feedback_filename"
    using finalizer_not_writable[OF that, of steps' ?base]
    unfolding s by auto
  from caught passed listed written replaced unopened show ?thesis by blast
qed

text \<open>
  A missing project file is reported; a crash while opening the project passes through; with
  a file that cannot be opened, or with an object among the outputs, the exception of the
  finalizer comes out.
\<close>

theorem handler_takes_domain_family_witness:
  \<open>propagated (execute any_file (the_steps not_found_run) initial_arg_values None 0) = None
   \<and> map_of (feedback (execute any_file (the_steps not_found_run) initial_arg_values None 0)) ''error''
       = Some (PStr ''Project file "/x.qgs" does not exist'')
   \<and> propagated (execute any_file (the_steps crashing_run) initial_arg_values None 0)
       = Some (OtherError ''RuntimeError'',
               [frame_call, ''  File "process_projectfile.py", line 81, in load_project_file''])
   \<and> map_of (feedback (execute any_file (the_steps crashing_run) initial_arg_values None 0)) ''error''
       = None
   \<and> propagated (execute no_file (the_steps crashing_run) initial_arg_values
                   (Some ''/tmp/feedback.json'') 0)
       = Some (OSError ''/tmp/feedback.json'', [frame_open])
   \<and> propagated (execute any_file [obj_step, crash_step] [] None 0)
       = Some (TypeError ''Object is not JSON serializable'', [frame_dumps])\<close>
proof -
  let ?nf = "execute any_file (the_steps not_found_run) initial_arg_values None 0"
  let ?cr = "execute any_file (the_steps crashing_run) initial_arg_values None 0"
  let ?ro = "execute no_file (the_steps crashing_run) initial_arg_values (Some ''/tmp/feedback.json'') 0"
  let ?ob = "execute any_file [obj_step, crash_step] [] None 0"
  have caught: \<open>run_steps 0 initial_arg_values (the_steps not_found_run) =
      ((1, initial_arg_values),
       (hd (the_steps not_found_run))\<lparr>stage := STARTED\<rparr> # tl (the_steps not_found_run),
       Some (DomainError (ProjectFileNotFoundException ''/x.qgs''),
             [frame_call, ''  File "process_projectfile.py", line 62, in check_valid_project_file'']))\<close>
    by (simp add: sample_defs body_defs)
  have passed: \<open>run_steps 0 initial_arg_values (the_steps crashing_run) =
      ((2, initial_arg_values),
       [(the_steps crashing_run ! 0)\<lparr>stage := SUCCEEDED\<rparr>,
        (the_steps crashing_run ! 1)\<lparr>stage := STARTED\<rparr>,
        the_steps crashing_run ! 2, the_steps crashing_run ! 3],
       Some (OtherError ''RuntimeError'',
             [frame_call, ''  File "process_projectfile.py", line 81, in load_project_file'']))\<close>
    by (simp add: sample_defs body_defs)
  have object: \<open>run_steps 0 [] [obj_step, crash_step] =
      ((2, []),
       [obj_step\<lparr>stage := SUCCEEDED, outputs := [(''project'', PObj 1)]\<rparr>,
        crash_step\<lparr>stage := STARTED\<rparr>],
       Some (OtherError ''RuntimeError'', [frame_call, ''  File "steps.py", line 1, in crashes'']))\<close>
    by (simp add: extra_defs body_defs)
  have ser: "json_serialisable (PDict (feedback ?nf))" "json_serialisable (PDict (feedback ?cr))"
    unfolding execute_fields(1)[OF caught] execute_fields(1)[OF passed]
    by (simp_all add: sample_defs step_entry_def)
  have nser: "\<not> json_serialisable (PDict (feedback ?ob))"
    unfolding execute_fields(1)[OF object]
    by (simp add: extra_defs step_entry_def)
  have wr: "writable any_file 1 None" "writable any_file 2 None"
    "\<not> writable no_file 2 (Some ''/tmp/feedback.json'')"
    by (simp_all add: writable_def no_file_def)
  show ?thesis
    using handler_takes_domain_family[OF caught, of any_file None]
      handler_takes_domain_family[OF passed, of any_file None]
      handler_takes_domain_family[OF passed, of no_file "Some ''/tmp/feedback.json''"]
      handler_takes_domain_family[OF object, of any_file None]
      ser nser wr
    by simp
qed

text \<open>
  Against claim C5 as it was stated: the second step raises an exception outside the domain
  family, the first has recorded an object, and the caller gets the \<^verbatim>\<open>TypeError\<close> of the
  writer, not the exception of the step.
\<close>

theorem writer_replaces_exception_counterexample:
  \<open>snd (snd (run_steps 0 [] [obj_step, crash_step]))
     = Some (OtherError ''RuntimeError'', [frame_call, ''  File "steps.py", line 1, in crashes''])
   \<and> propagated (execute any_file [obj_step, crash_step] [] None 0)
       = Some (TypeError ''Object is not JSON serializable'', [frame_dumps])
   \<and> emitted (execute any_file [obj_step, crash_step] [] None 0) = [HeaderPrinted]\<close>
  by (simp add: execute_def finalizer_def Let_def body_defs extra_defs step_entry_def json_dumps_def)

text \<open>
  Claim C6. A step whose output names or public returns are not all among its return names
  is rejected by the constructor, and a pipeline that declares such a step ends with the
  violation before anything is executed or emitted.
\<close>

theorem constructor_rejects_unreturned_names:
  assumes "\<not> set outs \<subseteq> set rets \<or> \<not> set pubs \<subseteq> set rets"
  shows "isl (Step_init nm args m rets outs pubs)
       \<and> isl (run_pipeline can_open (before @ Step_init nm args m rets outs pubs # after)
                 arg_values feedback_filename w)"
proof -
  have rejected: "isl (Step_init nm args m rets outs pubs)"
    using assms by (auto simp: Step_init_def)
  have "isl (construct_all (before @ Step_init nm args m rets outs pubs # after))"
    by (rule construct_all_violation[OF rejected])
  then have "isl (run_pipeline can_open (before @ Step_init nm args m rets outs pubs # after)
                 arg_values feedback_filename w)"
    by (auto simp: run_pipeline_def split: sum.splits)
  with rejected show ?thesis by simp
qed

text \<open>The third step of the pipeline, declared with an output that it does not return.\<close>

theorem constructor_rejects_unreturned_names_witness:
  "\<not> set [''layers_summary''] \<subseteq> set ([] :: string list)
   \<and> Step_init ''Layer Validity Check'' [''project''] valid_layers [] [''layers_summary''] []
       = Inl (OutputNamesNotReturned ''Layer Validity Check'' [''layers_summary''])
   \<and> isl (run_pipeline any_file
            (take 2 (declared_steps good_run)
             @ Step_init ''Layer Validity Check'' [''project''] valid_layers [] [''layers_summary''] []
             # drop 3 (declared_steps good_run))
            initial_arg_values None 0)"
  using constructor_rejects_unreturned_names
          [where outs = "[''layers_summary'']" and rets = "[]" and pubs = "[]"
             and nm = "''Layer Validity Check''" and args = "[''project'']" and m = valid_layers
             and before = "take 2 (declared_steps good_run)"
             and after = "drop 3 (declared_steps good_run)"
             and can_open = any_file and arg_values = initial_arg_values
             and feedback_filename = None and w = 0]
  by (simp add: Step_init_def)

text \<open>
  Claim C7, as amended. The callable of a step has returned. With exactly one return name
  the result is bound whole to that name, whatever it is. With more than one return name
  the result is iterated and its items are paired with the return names in order, up to the
  shorter of the two. A mismatch of the two lengths is no matter of the constructor, whose
  verdict does not depend on the callable; at run time the step ends without an exception
  exactly when every output name and public return is among the names that got an item
  (for a step whose output names and public returns are return names: whenever there are
  at least as many items as names); otherwise the step raises \<^verbatim>\<open>KeyError\<close> for such a
  name. A result that cannot be iterated raises \<^verbatim>\<open>TypeError\<close> when the pairs are made.
\<close>

theorem arity_mismatch_at_run_time:
  assumes args: "resolve_args av (arg_names s) = Inr args"
      and ret: "method_call s args w = (Returns v, w')"
  shows "(length (return_names s) = 1 \<longrightarrow>
            make_return_map (return_names s) (wrap_return_values (return_names s) v)
              = Inr [(hd (return_names s), v)]
          \<and> (snd (snd (step_body w av s)) = None)
              = (set (output_names s) \<union> set (public_returns s) \<subseteq> set (return_names s)))
       \<and> (1 < length (return_names s) \<and> py_iter v = Inr vs \<longrightarrow>
            make_return_map (return_names s) (wrap_return_values (return_names s) v)
              = Inr (store_all (zip (return_names s) vs) [])
          \<and> map_of (store_all (zip (return_names s) vs) []) = map_of (rev (zip (return_names s) vs))
          \<and> fst ` set (store_all (zip (return_names s) vs) [])
              = set (take (length vs) (return_names s))
          \<and> (snd (snd (step_body w av s)) = None)
              = (set (output_names s) \<union> set (public_returns s)
                   \<subseteq> set (take (length vs) (return_names s)))
          \<and> (\<forall>e tb. snd (snd (step_body w av s)) = Some (e, tb) \<longrightarrow>
                (\<exists>k. e = KeyError k \<and> k \<in> set (output_names s) \<union> set (public_returns s)
                    \<and> k \<notin> set (take (length vs) (return_names s)))))
       \<and> (1 < length (return_names s) \<and> py_iter v = Inl x \<longrightarrow>
            snd (snd (step_body w av s)) = Some (x, [frame_zip]))
       \<and> isl (Step_init nm ns m rets outs pubs) = isl (Step_init nm ns m' rets outs pubs)"
proof -
  let ?rets = "return_names s"
  have one: "make_return_map ?rets (wrap_return_values ?rets v) = Inr [(hd ?rets, v)]
          \<and> (snd (snd (step_body w av s)) = None)
              = (set (output_names s) \<union> set (public_returns s) \<subseteq> set ?rets)"
    if "length ?rets = 1"
  proof -
    from that obtain n where n: "?rets = [n]" by (cases ?rets) simp_all
    have rm: "make_return_map ?rets (wrap_return_values ?rets v) = Inr [(hd ?rets, v)]"
      using n by (simp add: make_return_map_def wrap_return_values_def)
    from step_body_after_return(1)[OF args ret rm] rm n show ?thesis by simp
  qed
  have many: "make_return_map ?rets (wrap_return_values ?rets v) = Inr (store_all (zip ?rets vs) [])
          \<and> map_of (store_all (zip ?rets vs) []) = map_of (rev (zip ?rets vs))
          \<and> fst ` set (store_all (zip ?rets vs) []) = set (take (length vs) ?rets)
          \<and> (snd (snd (step_body w av s)) = None)
              = (set (output_names s) \<union> set (public_returns s) \<subseteq> set (take (length vs) ?rets))
          \<and> (\<forall>e tb. snd (snd (step_body w av s)) = Some (e, tb) \<longrightarrow>
                (\<exists>k. e = KeyError k \<and> k \<in> set (output_names s) \<union> set (public_returns s)
                    \<and> k \<notin> set (take (length vs) ?rets)))"
    if "1 < length ?rets \<and> py_iter v = Inr vs"
  proof -
    have rm: "make_return_map ?rets (wrap_return_values ?rets v) = Inr (store_all (zip ?rets vs) [])"
      using that by (simp add: make_return_map_def wrap_return_values_def)
    have keys: "fst ` set (store_all (zip ?rets vs) []) = set (take (length vs) ?rets)"
      by (simp add: store_all_keys set_zip_fst)
    have vals: "map_of (store_all (zip ?rets vs) []) = map_of (rev (zip ?rets vs))"
      by (simp add: store_all_map_of)
    from rm keys vals step_body_after_return[OF args ret rm] show ?thesis
      by simp
  qed
  have none: "snd (snd (step_body w av s)) = Some (x, [frame_zip])"
    if "1 < length ?rets \<and> py_iter v = Inl x"
    using that args ret by (simp add: step_body_def make_return_map_def wrap_return_values_def)
  have ctor: "isl (Step_init nm ns m rets outs pubs) = isl (Step_init nm ns m' rets outs pubs)"
    by (simp add: Step_init_def)
  from one many none ctor show ?thesis by blast
qed

text \<open>
  A tuple of three under one name; three items for two names; one item for two names that
  are both outputs, which raises for the second after the first was recorded; \<^verbatim>\<open>None\<close> for
  two names.
\<close>

theorem arity_mismatch_at_run_time_witness:
  "make_return_map (return_names one_name_step)
       (wrap_return_values (return_names one_name_step) (PTuple [PInt 1, PInt 2, PInt 3]))
     = Inr [(''a'', PTuple [PInt 1, PInt 2, PInt 3])]
   \<and> snd (snd (step_body 0 [] one_name_step)) = None
   \<and> make_return_map (return_names two_names_step)
       (wrap_return_values (return_names two_names_step) (PTuple [PInt 1, PInt 2, PInt 3]))
     = Inr [(''a'', PInt 1), (''b'', PInt 2)]
   \<and> snd (snd (step_body 0 [] two_names_step)) = None
   \<and> snd (snd (step_body 0 [] short_result_step)) \<noteq> None
   \<and> step_body 0 [] short_result_step
     = ((1, []), short_result_step\<lparr>outputs := [(''a'', PInt 1)]\<rparr>, Some (KeyError ''b'', [frame_outputs]))
   \<and> snd (snd (step_body 0 [] (two_names_step\<lparr>method_call := valid_project\<rparr>)))
     = Some (TypeError ''NoneType'', [frame_zip])"
proof -
  have a1: "resolve_args [] (arg_names one_name_step) = Inr []"
    and a2: "resolve_args [] (arg_names two_names_step) = Inr []"
    and a3: "resolve_args [] (arg_names short_result_step) = Inr []"
    and a4: "resolve_args [] (arg_names (two_names_step\<lparr>method_call := valid_project\<rparr>)) = Inr []"
    by (simp_all add: one_name_step_def extra_defs)
  have r1: "method_call one_name_step [] 0 = (Returns (PTuple [PInt 1, PInt 2, PInt 3]), 1)"
    and r2: "method_call two_names_step [] 0 = (Returns (PTuple [PInt 1, PInt 2, PInt 3]), 1)"
    and r3: "method_call short_result_step [] 0 = (Returns (PTuple [PInt 1]), 1)"
    and r4: "method_call (two_names_step\<lparr>method_call := valid_project\<rparr>) [] 0 = (Returns PNone, 1)"
    by (simp_all add: one_name_step_def extra_defs valid_project_def)
  have short: "step_body 0 [] short_result_step
     = ((1, []), short_result_step\<lparr>outputs := [(''a'', PInt 1)]\<rparr>, Some (KeyError ''b'', [frame_outputs]))"
    by (simp add: extra_defs body_defs)
  note inst = arity_mismatch_at_run_time[where nm = "[]" and ns = "[]" and m = valid_project
      and m' = valid_project and rets = "[]" and outs = "[]" and pubs = "[]"]
  have c1: "make_return_map (return_names one_name_step)
       (wrap_return_values (return_names one_name_step) (PTuple [PInt 1, PInt 2, PInt 3]))
     = Inr [(''a'', PTuple [PInt 1, PInt 2, PInt 3])]
   \<and> snd (snd (step_body 0 [] one_name_step)) = None"
    using inst[OF a1 r1, where vs = "[]" and x = "TypeError []"]
    by (simp add: one_name_step_def)
  have c2: "make_return_map (return_names two_names_step)
       (wrap_return_values (return_names two_names_step) (PTuple [PInt 1, PInt 2, PInt 3]))
     = Inr [(''a'', PInt 1), (''b'', PInt 2)]
   \<and> snd (snd (step_body 0 [] two_names_step)) = None"
    using inst[OF a2 r2, where vs = "[PInt 1, PInt 2, PInt 3]" and x = "TypeError []"]
    by (simp add: two_names_step_def)
  have c3: "snd (snd (step_body 0 [] short_result_step)) \<noteq> None"
    using inst[OF a3 r3, where vs = "[PInt 1]" and x = "TypeError []"]
    by (simp add: short_result_step_def)
  have c4: "snd (snd (step_body 0 [] (two_names_step\<lparr>method_call := valid_project\<rparr>)))
     = Some (TypeError ''NoneType'', [frame_zip])"
    using inst[OF a4 r4, where vs = "[]" and x = "TypeError ''NoneType''"]
    by (simp add: two_names_step_def)
  from c1 c2 c3 c4 short show ?thesis by simp
qed

text \<open>
  Against claim C7 as it was stated: a step with two return names and a callable that returns
  three values is accepted by the constructor, and the run ends with the stage \<open>SUCCEEDED\<close>,
  the first two values recorded and no error in the feedback.
\<close>

theorem arity_mismatch_tolerated_counterexample:
  "Step_init ''pair'' [] returns_triple [''a'', ''b''] [''a'', ''b''] [] = Inr two_names_step
   \<and> propagated (execute any_file [two_names_step] [] None 0) = None
   \<and> map stage (final_steps (execute any_file [two_names_step] [] None 0)) = [SUCCEEDED]
   \<and> map outputs (final_steps (execute any_file [two_names_step] [] None 0))
       = [[(''a'', PInt 1), (''b'', PInt 2)]]
   \<and> map_of (feedback (execute any_file [two_names_step] [] None 0)) ''error'' = None"
  by (simp add: Step_init_def execute_def finalizer_def Let_def body_defs extra_defs step_entry_def
        json_dumps_def)

text \<open>
  Claim C8. When the result of every callable depends on its arguments only, two runs of
  the same steps on the same initial arguments, in whatever state of the outside world, have
  the same feedback with the same serialisation; they leave the same in the sink when the
  sink can be written in both worlds alike, and when the feedback can be serialised and the
  sink written, both emit the one document with the text of the JSON writer. That text has
  two more spaces at the beginning of its lines for each level of nesting, and the keys of
  a dictionary in sorted order, whatever the order in which they were stored.
\<close>

theorem deterministic_callables_same_document:
  assumes det: "list_all deterministic steps"
  shows "feedback (execute can_open steps arg_values feedback_filename w)
           = feedback (execute can_open steps arg_values feedback_filename w')
       \<and> json_dumps (PDict (feedback (execute can_open steps arg_values feedback_filename w)))
           = json_dumps (PDict (feedback (execute can_open steps arg_values feedback_filename w')))
       \<and> (writable can_open (final_world (execute can_open steps arg_values feedback_filename w))
               feedback_filename
            = writable can_open (final_world (execute can_open steps arg_values feedback_filename w'))
               feedback_filename
          \<longrightarrow> emitted (execute can_open steps arg_values feedback_filename w)
                = emitted (execute can_open steps arg_values feedback_filename w')
            \<and> propagated (execute can_open steps arg_values feedback_filename w)
                = propagated (execute can_open steps arg_values feedback_filename w'))
       \<and> (json_serialisable (PDict (feedback (execute can_open steps arg_values feedback_filename w)))
            \<and> writable can_open (final_world (execute can_open steps arg_values feedback_filename w))
                 feedback_filename
            \<and> writable can_open (final_world (execute can_open steps arg_values feedback_filename w'))
                 feedback_filename
          \<longrightarrow> emitted (execute can_open steps arg_values feedback_filename w) =
                [the_document feedback_filename
                   (encode 0 (PDict (feedback (execute can_open steps arg_values feedback_filename w))))]
            \<and> emitted (execute can_open steps arg_values feedback_filename w') =
                [the_document feedback_filename
                   (encode 0 (PDict (feedback (execute can_open steps arg_values feedback_filename w))))])
       \<and> encode (level + k) v = indent_more (2 * k) (encode level v)
       \<and> encode level (PDict kvs) = encode level (PDict (sort_key fst kvs))
       \<and> sorted (map fst (sort_key fst kvs))
       \<and> (set kvs = set kvs' \<and> distinct (map fst kvs) \<and> distinct (map fst kvs')
          \<longrightarrow> encode level (PDict kvs) = encode level (PDict kvs'))"
proof -
  let ?r = "execute can_open steps arg_values feedback_filename w"
  let ?q = "execute can_open steps arg_values feedback_filename w'"
  obtain x1 av1 ss1 r1 where run1: "run_steps w arg_values steps = ((x1, av1), ss1, r1)"
    by (metis prod_cases3 surj_pair)
  obtain x2 av2 ss2 r2 where run2: "run_steps w' arg_values steps = ((x2, av2), ss2, r2)"
    by (metis prod_cases3 surj_pair)
  from run_steps_deterministic[OF det, of w arg_values w'] run1 run2
  have same: "ss2 = ss1" "r2 = r1" by simp_all
  note f1 = execute_fields[OF run1, of can_open feedback_filename]
  note f2 = execute_fields[OF run2[unfolded same], of can_open feedback_filename]
  note s1 = execute_sink[OF run1, of can_open feedback_filename]
  note s2 = execute_sink[OF run2[unfolded same], of can_open feedback_filename]
  have fb: "feedback ?r = feedback ?q"
    unfolding f1 f2 ..
  have sink: "emitted ?r = emitted ?q \<and> propagated ?r = propagated ?q"
    if "writable can_open (final_world ?r) feedback_filename
          = writable can_open (final_world ?q) feedback_filename"
  proof -
    from that have "writable can_open x1 feedback_filename = writable can_open x2 feedback_filename"
      unfolding f1 f2 .
    from finalizer_same_sink[OF this]
    have eq: "finalizer (can_open x1) ss1 feedback_filename (fst (except_BaseException r1))
            = finalizer (can_open x2) ss1 feedback_filename (fst (except_BaseException r1))" .
    show ?thesis
      unfolding s1 s2 eq by simp
  qed
  have doc: "emitted ?r = [the_document feedback_filename (encode 0 (PDict (feedback ?r)))]
           \<and> emitted ?q = [the_document feedback_filename (encode 0 (PDict (feedback ?r)))]"
    if "json_serialisable (PDict (feedback ?r))
        \<and> writable can_open (final_world ?r) feedback_filename
        \<and> writable can_open (final_world ?q) feedback_filename"
  proof -
    let ?fb = "AList.update ''steps'' (PList (map step_entry ss1)) (fst (except_BaseException r1))"
    from that have ser: "json_serialisable (PDict ?fb)"
      and w1: "writable can_open x1 feedback_filename"
      and w2: "writable can_open x2 feedback_filename"
      unfolding f1 f2 by simp_all
    from finalizer_written[OF ser w1] finalizer_written[OF ser w2] show ?thesis
      unfolding s1 s2 f1(1) by simp
  qed
  from fb sink doc encode_indent[of level k v] encode_sorted_keys[of level kvs]
    encode_key_order[of kvs kvs' level]
  show ?thesis by simp
qed

text \<open>
  Two runs of the four steps, the second one in a world seven calls older: the same output,
  which is the text that Python prints for this feedback, and the same file.
\<close>

theorem deterministic_callables_same_document_witness:
  \<open>list_all deterministic (the_steps invalid_layers_run)
   \<and> final_world (execute any_file (the_steps invalid_layers_run) initial_arg_values None 0) = 3
   \<and> final_world (execute any_file (the_steps invalid_layers_run) initial_arg_values None 7) = 10
   \<and> emitted (execute any_file (the_steps invalid_layers_run) initial_arg_values None 7)
       = emitted (execute any_file (the_steps invalid_layers_run) initial_arg_values None 0)
   \<and> map printed (emitted (execute any_file (the_steps invalid_layers_run) initial_arg_values None 0))
       = [''Feedback:'' @ [CHR 0x0A]
       @ ''{'' @ [CHR 0x0A]
       @ ''  "error": "Project file '' @ [CHR 0x5C] @ ''"/x.qgs'' @ [CHR 0x5C]
       @ ''" contains invalid layers",'' @ [CHR 0x0A]
       @ ''  "error_stack": ['' @ [CHR 0x0A]
       @ ''    "  File '' @ [CHR 0x5C] @ ''"process_projectfile.py'' @ [CHR 0x5C]
       @ ''", line 250, in process_projectfile",'' @ [CHR 0x0A]
       @ ''    "  File '' @ [CHR 0x5C] @ ''"process_projectfile.py'' @ [CHR 0x5C]
       @ ''", line 151, in check_layer_validity"'' @ [CHR 0x0A]
       @ ''  ],'' @ [CHR 0x0A]
       @ ''  "steps": ['' @ [CHR 0x0A]
       @ ''    {'' @ [CHR 0x0A]
       @ ''      "name": "Project Validity Check",'' @ [CHR 0x0A]
       @ ''      "outputs": {},'' @ [CHR 0x0A]
       @ ''      "stage": "SUCCEEDED"'' @ [CHR 0x0A]
       @ ''    },'' @ [CHR 0x0A]
       @ ''    {'' @ [CHR 0x0A]
       @ ''      "name": "Opening Check",'' @ [CHR 0x0A]
       @ ''      "outputs": {},'' @ [CHR 0x0A]
       @ ''      "stage": "SUCCEEDED"'' @ [CHR 0x0A]
       @ ''    },'' @ [CHR 0x0A]
       @ ''    {'' @ [CHR 0x0A]
       @ ''      "name": "Layer Validity Check",'' @ [CHR 0x0A]
       @ ''      "outputs": {},'' @ [CHR 0x0A]
       @ ''      "stage": "STARTED"'' @ [CHR 0x0A]
       @ ''    },'' @ [CHR 0x0A]
       @ ''    {'' @ [CHR 0x0A]
       @ ''      "name": "Generate Thumbnail Image",'' @ [CHR 0x0A]
       @ ''      "outputs": {},'' @ [CHR 0x0A]
       @ ''      "stage": "NOT_STARTED"'' @ [CHR 0x0A]
       @ ''    }'' @ [CHR 0x0A]
       @ ''  ]'' @ [CHR 0x0A]
       @ ''}'' @ [CHR 0x0A]]
   \<and> emitted (execute any_file (the_steps good_run) initial_arg_values (Some ''/tmp/feedback.json'') 7)
       = emitted (execute any_file (the_steps good_run) initial_arg_values (Some ''/tmp/feedback.json'') 0)
   \<and> emitted (execute any_file (the_steps good_run) initial_arg_values (Some ''/tmp/feedback.json'') 0)
       = [DocumentInFile ''/tmp/feedback.json''
           (''{'' @ [CHR 0x0A]
       @ ''  "steps": ['' @ [CHR 0x0A]
       @ ''    {'' @ [CHR 0x0A]
       @ ''      "name": "Project Validity Check",'' @ [CHR 0x0A]
       @ ''      "outputs": {},'' @ [CHR 0x0A]
       @ ''      "stage": "SUCCEEDED"'' @ [CHR 0x0A]
       @ ''    },'' @ [CHR 0x0A]
       @ ''    {'' @ [CHR 0x0A]
       @ ''      "name": "Opening Check",'' @ [CHR 0x0A]
       @ ''      "outputs": {},'' @ [CHR 0x0A]
       @ ''      "stage": "SUCCEEDED"'' @ [CHR 0x0A]
       @ ''    },'' @ [CHR 0x0A]
       @ ''    {'' @ [CHR 0x0A]
       @ ''      "name": "Layer Validity Check",'' @ [CHR 0x0A]
       @ ''      "outputs": {'' @ [CHR 0x0A]
       @ ''        "layers_summary": ['' @ [CHR 0x0A]
       @ ''          {'' @ [CHR 0x0A]
       @ ''            "id": "roads",'' @ [CHR 0x0A]
       @ ''            "is_valid": true'' @ [CHR 0x0A]
       @ ''          }'' @ [CHR 0x0A]
       @ ''        ]'' @ [CHR 0x0A]
       @ ''      },'' @ [CHR 0x0A]
       @ ''      "stage": "SUCCEEDED"'' @ [CHR 0x0A]
       @ ''    },'' @ [CHR 0x0A]
       @ ''    {'' @ [CHR 0x0A]
       @ ''      "name": "Generate Thumbnail Image",'' @ [CHR 0x0A]
       @ ''      "outputs": {},'' @ [CHR 0x0A]
       @ ''      "stage": "SUCCEEDED"'' @ [CHR 0x0A]
       @ ''    }'' @ [CHR 0x0A]
       @ ''  ]'' @ [CHR 0x0A]
       @ ''}'')]
   \<and> encode 0 (PDict [(''b'', PInt 1), (''a'', PList [PInt 2])])
       = encode 0 (PDict [(''a'', PList [PInt 2]), (''b'', PInt 1)])
   \<and> encode 1 (PList [PInt 2]) = indent_more 2 (encode 0 (PList [PInt 2]))\<close>
proof -
  let ?bad = "the_steps invalid_layers_run" and ?good = "the_steps good_run"
  have det: "list_all deterministic ?bad" "list_all deterministic ?good"
    by (simp_all add: deterministic_def sample_defs)
  have worlds: "final_world (execute any_file ?bad initial_arg_values None 0) = 3"
    "final_world (execute any_file ?bad initial_arg_values None 7) = 10"
    by code_simp+
  have wr: "writable any_file a None = writable any_file b None"
    "writable any_file a (Some ''/tmp/feedback.json'') = writable any_file b (Some ''/tmp/feedback.json'')"
    for a b :: nat
    by (simp_all add: writable_def any_file_def)
  have printed: \<open>map printed (emitted (execute any_file ?bad initial_arg_values None 0))
       = [''Feedback:'' @ [CHR 0x0A]
       @ ''{'' @ [CHR 0x0A]
       @ ''  "error": "Project file '' @ [CHR 0x5C] @ ''"/x.qgs'' @ [CHR 0x5C]
       @ ''" contains invalid layers",'' @ [CHR 0x0A]
       @ ''  "error_stack": ['' @ [CHR 0x0A]
       @ ''    "  File '' @ [CHR 0x5C] @ ''"process_projectfile.py'' @ [CHR 0x5C]
       @ ''", line 250, in process_projectfile",'' @ [CHR 0x0A]
       @ ''    "  File '' @ [CHR 0x5C] @ ''"process_projectfile.py'' @ [CHR 0x5C]
       @ ''", line 151, in check_layer_validity"'' @ [CHR 0x0A]
       @ ''  ],'' @ [CHR 0x0A]
       @ ''  "steps": ['' @ [CHR 0x0A]
       @ ''    {'' @ [CHR 0x0A]
       @ ''      "name": "Project Validity Check",'' @ [CHR 0x0A]
       @ ''      "outputs": {},'' @ [CHR 0x0A]
       @ ''      "stage": "SUCCEEDED"'' @ [CHR 0x0A]
       @ ''    },'' @ [CHR 0x0A]
       @ ''    {'' @ [CHR 0x0A]
       @ ''      "name": "Opening Check",'' @ [CHR 0x0A]
       @ ''      "outputs": {},'' @ [CHR 0x0A]
       @ ''      "stage": "SUCCEEDED"'' @ [CHR 0x0A]
       @ ''    },'' @ [CHR 0x0A]
       @ ''    {'' @ [CHR 0x0A]
       @ ''      "name": "Layer Validity Check",'' @ [CHR 0x0A]
       @ ''      "outputs": {},'' @ [CHR 0x0A]
       @ ''      "stage": "STARTED"'' @ [CHR 0x0A]
       @ ''    },'' @ [CHR 0x0A]
       @ ''    {'' @ [CHR 0x0A]
       @ ''      "name": "Generate Thumbnail Image",'' @ [CHR 0x0A]
       @ ''      "outputs": {},'' @ [CHR 0x0A]
       @ ''      "stage": "NOT_STARTED"'' @ [CHR 0x0A]
       @ ''    }'' @ [CHR 0x0A]
       @ ''  ]'' @ [CHR 0x0A]
       @ ''}'' @ [CHR 0x0A]]\<close>
    by code_simp
  have filed: \<open>emitted (execute any_file ?good initial_arg_values (Some ''/tmp/feedback.json'') 0)
       = [DocumentInFile ''/tmp/feedback.json''
           (''{'' @ [CHR 0x0A]
       @ ''  "steps": ['' @ [CHR 0x0A]
       @ ''    {'' @ [CHR 0x0A]
       @ ''      "name": "Project Validity Check",'' @ [CHR 0x0A]
       @ ''      "outputs": {},'' @ [CHR 0x0A]
       @ ''      "stage": "SUCCEEDED"'' @ [CHR 0x0A]
       @ ''    },'' @ [CHR 0x0A]
       @ ''    {'' @ [CHR 0x0A]
       @ ''      "name": "Opening Check",'' @ [CHR 0x0A]
       @ ''      "outputs": {},'' @ [CHR 0x0A]
       @ ''      "stage": "SUCCEEDED"'' @ [CHR 0x0A]
       @ ''    },'' @ [CHR 0x0A]
       @ ''    {'' @ [CHR 0x0A]
       @ ''      "name": "Layer Validity Check",'' @ [CHR 0x0A]
       @ ''      "outputs": {'' @ [CHR 0x0A]
       @ ''        "layers_summary": ['' @ [CHR 0x0A]
       @ ''          {'' @ [CHR 0x0A]
       @ ''            "id": "roads",'' @ [CHR 0x0A]
       @ ''            "is_valid": true'' @ [CHR 0x0A]
       @ ''          }'' @ [CHR 0x0A]
       @ ''        ]'' @ [CHR 0x0A]
       @ ''      },'' @ [CHR 0x0A]
       @ ''      "stage": "SUCCEEDED"'' @ [CHR 0x0A]
       @ ''    },'' @ [CHR 0x0A]
       @ ''    {'' @ [CHR 0x0A]
       @ ''      "name": "Generate Thumbnail Image",'' @ [CHR 0x0A]
       @ ''      "outputs": {},'' @ [CHR 0x0A]
       @ ''      "stage": "SUCCEEDED"'' @ [CHR 0x0A]
       @ ''    }'' @ [CHR 0x0A]
       @ ''  ]'' @ [CHR 0x0A]
       @ ''}'')]\<close>
    by code_simp
  note bad = deterministic_callables_same_document[OF det(1), where can_open = any_file
      and arg_values = initial_arg_values and feedback_filename = None and w = 0 and w' = 7
      and level = 0 and k = 1 and v = "PList [PInt 2]"
      and kvs = "[(''b'', PInt 1), (''a'', PList [PInt 2])]"
      and kvs' = "[(''a'', PList [PInt 2]), (''b'', PInt 1)]"]
  note good = deterministic_callables_same_document[OF det(2), where can_open = any_file
      and arg_values = initial_arg_values and feedback_filename = "Some ''/tmp/feedback.json''"
      and w = 0 and w' = 7 and level = 0 and k = 1 and v = "PList [PInt 2]"
      and kvs = "[]" and kvs' = "[]"]
  have same_bad: "emitted (execute any_file ?bad initial_arg_values None 7)
       = emitted (execute any_file ?bad initial_arg_values None 0)"
    using bad wr(1) by simp
  have same_good: "emitted (execute any_file ?good initial_arg_values (Some ''/tmp/feedback.json'') 7)
       = emitted (execute any_file ?good initial_arg_values (Some ''/tmp/feedback.json'') 0)"
    using good wr(2) by simp
  have order: "encode 0 (PDict [(''b'', PInt 1), (''a'', PList [PInt 2])])
       = encode 0 (PDict [(''a'', PList [PInt 2]), (''b'', PInt 1)])"
    using bad by auto
  have indent: "encode 1 (PList [PInt 2]) = indent_more 2 (encode 0 (PList [PInt 2]))"
    using bad by simp
  from det(1) worlds same_bad printed same_good filed order indent show ?thesis
    by (intro conjI)
qed

text \<open>
  Claim C9. An invocation of a step ends with the stage \<open>SUCCEEDED\<close> when the body returns
  and with \<open>STARTED\<close>, set on entering, when it raises. In a run over steps that are all
  \<open>NOT_STARTED\<close> at the beginning, no stage is ever earlier at a later moment of the loop than
  at an earlier one; the steps begin as declared and end as the feedback shows them:
  \<open>SUCCEEDED\<close> up to the step that failed, \<open>STARTED\<close> for that step, \<open>NOT_STARTED\<close> for the
  steps that were not reached.
\<close>

theorem stage_moves_forward:
  assumes fresh: "list_all (\<lambda>s. stage s = NOT_STARTED) steps"
  shows "stage (fst (snd (logger_context step (step_body w0 av0)))) =
           (if snd (snd (logger_context step (step_body w0 av0))) = None then SUCCEEDED else STARTED)
       \<and> (n \<le> m \<longrightarrow> not_backwards (steps_after n w av steps) (steps_after m w av steps))
       \<and> steps_after 0 w av steps = steps
       \<and> steps_after (length steps) w av steps = final_steps (execute can_open steps av feedback_filename w)
       \<and> (\<exists>k. map stage (final_steps (execute can_open steps av feedback_filename w)) =
             replicate k SUCCEEDED
             @ (case snd (snd (run_steps w av steps)) of None \<Rightarrow> [] | Some f \<Rightarrow> [STARTED])
             @ replicate (length steps - k
                  - (case snd (snd (run_steps w av steps)) of None \<Rightarrow> 0 | Some f \<Rightarrow> 1)) NOT_STARTED)"
proof -
  obtain st1 s1 r1 where l: "logger_context step (step_body w0 av0) = (st1, s1, r1)"
    by (metis prod_cases3)
  have a: "stage (fst (snd (logger_context step (step_body w0 av0)))) =
           (if snd (snd (logger_context step (step_body w0 av0))) = None then SUCCEEDED else STARTED)"
    using logger_context_stage[OF l] l by simp
  obtain x av' steps' r where run: "run_steps w av steps = ((x, av'), steps', r)"
    by (metis prod_cases3 surj_pair)
  have fin: "final_steps (execute can_open steps av feedback_filename w) = steps'"
    by (simp add: execute_fields[OF run])
  have b: "n \<le> m \<longrightarrow> not_backwards (steps_after n w av steps) (steps_after m w av steps)"
    using steps_after_mono[OF fresh] by blast
  have c: "steps_after 0 w av steps = steps"
    by (simp add: steps_after_def)
  have d: "steps_after (length steps) w av steps = steps'"
    using run by (simp add: steps_after_def)
  from run_steps_final_stages[OF fresh run] obtain k where
    "map stage steps' = replicate k SUCCEEDED @ (case r of None \<Rightarrow> [] | Some f \<Rightarrow> [STARTED])
           @ replicate (length steps - k - (case r of None \<Rightarrow> 0 | Some f \<Rightarrow> 1)) NOT_STARTED"
    by blast
  then have e: "\<exists>k. map stage (final_steps (execute can_open steps av feedback_filename w)) =
             replicate k SUCCEEDED
             @ (case snd (snd (run_steps w av steps)) of None \<Rightarrow> [] | Some f \<Rightarrow> [STARTED])
             @ replicate (length steps - k
                  - (case snd (snd (run_steps w av steps)) of None \<Rightarrow> 0 | Some f \<Rightarrow> 1)) NOT_STARTED"
    unfolding fin using run by (intro exI[of _ k]) simp
  from a b c d e fin show ?thesis by simp
qed

text \<open>The four steps, of which the third fails, before the loop, after two steps and at the end.\<close>

theorem stage_moves_forward_witness:
  "list_all (\<lambda>s. stage s = NOT_STARTED) (the_steps invalid_layers_run)
   \<and> map stage (steps_after 0 0 initial_arg_values (the_steps invalid_layers_run))
       = [NOT_STARTED, NOT_STARTED, NOT_STARTED, NOT_STARTED]
   \<and> map stage (steps_after 2 0 initial_arg_values (the_steps invalid_layers_run))
       = [SUCCEEDED, SUCCEEDED, NOT_STARTED, NOT_STARTED]
   \<and> map stage (steps_after 4 0 initial_arg_values (the_steps invalid_layers_run))
       = [SUCCEEDED, SUCCEEDED, STARTED, NOT_STARTED]
   \<and> not_backwards (steps_after 2 0 initial_arg_values (the_steps invalid_layers_run))
                    (steps_after 4 0 initial_arg_values (the_steps invalid_layers_run))
   \<and> stage (fst (snd (logger_context (the_steps invalid_layers_run ! 2)
              (step_body 2 (initial_arg_values @ [(''project'', PObj 1)]))))) = STARTED
   \<and> stage (fst (snd (logger_context (the_steps invalid_layers_run ! 0)
              (step_body 0 initial_arg_values)))) = SUCCEEDED"
proof -
  have fresh: "list_all (\<lambda>s. stage s = NOT_STARTED) (the_steps invalid_layers_run)"
    by (simp add: sample_defs)
  have s0: "map stage (steps_after 0 0 initial_arg_values (the_steps invalid_layers_run))
       = [NOT_STARTED, NOT_STARTED, NOT_STARTED, NOT_STARTED]"
    by (simp add: steps_after_def sample_defs)
  have s2: "map stage (steps_after 2 0 initial_arg_values (the_steps invalid_layers_run))
       = [SUCCEEDED, SUCCEEDED, NOT_STARTED, NOT_STARTED]"
    by (simp add: steps_after_def sample_defs body_defs)
  have s4: "map stage (steps_after 4 0 initial_arg_values (the_steps invalid_layers_run))
       = [SUCCEEDED, SUCCEEDED, STARTED, NOT_STARTED]"
    by (simp add: steps_after_def sample_defs body_defs)
  have raised: "snd (snd (logger_context (the_steps invalid_layers_run ! 2)
              (step_body 2 (initial_arg_values @ [(''project'', PObj 1)])))) \<noteq> None"
    by (simp add: sample_defs body_defs)
  have returned: "snd (snd (logger_context (the_steps invalid_layers_run ! 0)
              (step_body 0 initial_arg_values))) = None"
    by (simp add: sample_defs body_defs)
  show ?thesis
    using fresh s0 s2 s4 raised returned
      stage_moves_forward[OF fresh, where step = "the_steps invalid_layers_run ! 2" and ?w0.0 = 2
         and ?av0.0 = "initial_arg_values @ [(''project'', PObj 1)]" and n = 2 and m = 4 and w = 0
         and av = initial_arg_values and feedback_filename = None and can_open = any_file]
      stage_moves_forward[OF fresh, where step = "the_steps invalid_layers_run ! 0" and ?w0.0 = 0
         and ?av0.0 = initial_arg_values and n = 2 and m = 4 and w = 0
         and av = initial_arg_values and feedback_filename = None and can_open = any_file]
    by simp
qed

text \<open>
  Claim C10. When the callable of a step raises, whatever the exception, the body of the step
  ends with \<^verbatim>\<open>arg_values\<close> and the outputs of the step as they were before the call; so
  they are at the end of a run that this step ends.
\<close>

theorem raising_callable_writes_nothing:
  assumes args: "resolve_args arg_values (arg_names step) = Inr args"
      and raises: "method_call step args w = (Raises e tb, w')"
  shows "step_body w arg_values step = ((w', arg_values), step, Some (e, frame_call # tb))
       \<and> snd (fst (logger_context step (step_body w arg_values))) = arg_values
       \<and> outputs (fst (snd (logger_context step (step_body w arg_values)))) = outputs step
       \<and> final_arg_values (execute can_open (step # after) arg_values feedback_filename w) = arg_values
       \<and> map outputs (final_steps (execute can_open (step # after) arg_values feedback_filename w))
           = map outputs (step # after)"
proof -
  have run: "run_steps w arg_values (step # after) =
          ((w', arg_values), step\<lparr>stage := STARTED\<rparr> # after, Some (e, frame_call # tb))"
    using logger_context_raises[OF args raises] by simp
  show ?thesis
    using step_body_raises[OF args raises] logger_context_raises[OF args raises]
      execute_fields[OF run]
    by simp
qed

text \<open>The first step raises: no name was added to \<^verbatim>\<open>arg_values\<close>, no output recorded.\<close>

theorem raising_callable_writes_nothing_witness:
  \<open>step_body 0 initial_arg_values (hd (the_steps not_found_run)) =
      ((1, initial_arg_values), hd (the_steps not_found_run),
       Some (DomainError (ProjectFileNotFoundException ''/x.qgs''),
             [frame_call, ''  File "process_projectfile.py", line 62, in check_valid_project_file'']))
   \<and> final_arg_values (execute any_file (the_steps not_found_run) initial_arg_values None 0)
        = initial_arg_values
   \<and> map outputs (final_steps (execute any_file (the_steps not_found_run) initial_arg_values None 0))
        = [[], [], [], []]\<close>
proof -
  have split: "the_steps not_found_run = hd (the_steps not_found_run) # tl (the_steps not_found_run)"
    by (simp add: sample_defs)
  have args: "resolve_args initial_arg_values (arg_names (hd (the_steps not_found_run)))
                = Inr [PStr ''/x.qgs'']"
    by (simp add: sample_defs body_defs)
  have raises: \<open>method_call (hd (the_steps not_found_run)) [PStr ''/x.qgs''] 0 =
      (Raises (DomainError (ProjectFileNotFoundException ''/x.qgs''))
         [''  File "process_projectfile.py", line 62, in check_valid_project_file''], 1)\<close>
    by (simp add: sample_defs)
  have outs: "map outputs (hd (the_steps not_found_run) # tl (the_steps not_found_run)) = [[], [], [], []]"
    by (simp add: sample_defs)
  show ?thesis
    using raising_callable_writes_nothing[OF args raises,
            where after = "tl (the_steps not_found_run)" and feedback_filename = None
              and can_open = any_file]
      outs
    unfolding split[symmetric]
    by simp
qed

end
